theory Spec2Isabelle
  imports
    Main
    "HOL-Library.Word"
    "HOL-Library.Char_ord"
    "HOL-Library.List_Lexorder"
    "HOL-Library.Sublist"
begin

unbundle bit_operations_syntax

section \<open>Go library functions used by the packages\<close>

text \<open>
  Go strings are byte sequences; \<^typ>\<open>string\<close> is a list of 8-bit characters. The
  comparison operators of Go on strings are the bytewise lexicographic order, which is
  the order of \<^typ>\<open>char list\<close> given by the two library theories imported above.
\<close>

subsection \<open>Package strings\<close>

definition HasPrefix :: "string \<Rightarrow> string \<Rightarrow> bool" where
  "HasPrefix s pre = prefix pre s"

definition HasSuffix :: "string \<Rightarrow> string \<Rightarrow> bool" where
  "HasSuffix s suf = suffix suf s"

text \<open>\<open>strings.IndexByte\<close>, \<open>strings.IndexRune\<close> and \<open>strings.Index\<close> for a one-byte
  needle: the first position of the byte, \<open>None\<close> for the result -1.\<close>

fun Index :: "string \<Rightarrow> char \<Rightarrow> nat option" where
  "Index [] c = None"
| "Index (x # xs) c = (if x = c then Some 0 else map_option Suc (Index xs c))"

definition LastIndexByte :: "string \<Rightarrow> char \<Rightarrow> nat option" where
  "LastIndexByte s c =
     (case Index (rev s) c of
        None \<Rightarrow> None
      | Some k \<Rightarrow> Some (length s - 1 - k))"

definition TrimPrefix :: "string \<Rightarrow> string \<Rightarrow> string" where
  "TrimPrefix s pre = (if HasPrefix s pre then drop (length pre) s else s)"

text \<open>
  \<open>strings.ToLower\<close> maps every rune of a string to its lower case by the Unicode tables
  of the library. The tables are not part of this development: the functions of autofs
  below take the library function as their parameter \<open>lower\<close>, and what is proved of them
  is proved for every function \<open>lower\<close>. On a string of ASCII bytes the library function
  lowers the letters \<open>A..Z\<close> and keeps the other bytes; this is \<open>ToLower_ascii\<close>, which
  stands for it where the examples evaluate the functions on ASCII names.
\<close>

definition toLower_char :: "char \<Rightarrow> char" where
  "toLower_char c =
     (if CHR ''A'' \<le> c \<and> c \<le> CHR ''Z'' then char_of (of_char c + (32::nat)) else c)"

definition ToLower_ascii :: "string \<Rightarrow> string" where
  "ToLower_ascii s = map toLower_char s"

subsection \<open>Package path\<close>

text \<open>The elements of a path between its slashes; \<open>joinSlash\<close> puts them together
  again.\<close>

fun splitSlash :: "string \<Rightarrow> string list" where
  "splitSlash [] = [[]]"
| "splitSlash (c # cs) =
     (if c = CHR ''/'' then [] # splitSlash cs
      else (case splitSlash cs of
              [] \<Rightarrow> [[c]]
            | x # xs \<Rightarrow> (c # x) # xs))"

fun joinSlash :: "string list \<Rightarrow> string" where
  "joinSlash [] = []"
| "joinSlash [x] = x"
| "joinSlash (x # y # ys) = x @ ''/'' @ joinSlash (y # ys)"

text \<open>
  \<open>path.Clean\<close>: empty and \<open>.\<close> elements are dropped, an inner \<open>..\<close> removes the
  element before it, a \<open>..\<close> at the root is dropped, leading \<open>..\<close> of a relative path
  are kept, and the empty result is \<open>.\<close>. The second argument is the output so far, last
  element first.
\<close>

fun cleanElems :: "bool \<Rightarrow> string list \<Rightarrow> string list \<Rightarrow> string list" where
  "cleanElems rooted out [] = rev out"
| "cleanElems rooted out (e # es) =
     (if e = [] \<or> e = ''.'' then cleanElems rooted out es
      else if e = ''..'' then
        (case out of
           [] \<Rightarrow> if rooted then cleanElems rooted out es
                 else cleanElems rooted [e] es
         | prev # below \<Rightarrow>
             if prev = ''..'' then cleanElems rooted (e # out) es
             else cleanElems rooted below es)
      else cleanElems rooted (e # out) es)"

definition path_IsAbs :: "string \<Rightarrow> bool" where
  "path_IsAbs p = (case p of [] \<Rightarrow> False | c # _ \<Rightarrow> c = CHR ''/'')"

definition path_Clean :: "string \<Rightarrow> string" where
  "path_Clean p =
     (if p = [] then ''.''
      else if path_IsAbs p then ''/'' @ joinSlash (cleanElems True [] (splitSlash p))
      else (let out = joinSlash (cleanElems False [] (splitSlash p))
            in if out = [] then ''.'' else out))"

definition path_Split :: "string \<Rightarrow> string \<times> string" where
  "path_Split p =
     (case LastIndexByte p CHR ''/'' of
        None \<Rightarrow> ([], p)
      | Some i \<Rightarrow> (take (i + 1) p, drop (i + 1) p))"

definition path_Dir :: "string \<Rightarrow> string" where
  "path_Dir p = path_Clean (fst (path_Split p))"

definition path_Base :: "string \<Rightarrow> string" where
  "path_Base p =
     (if p = [] then ''.''
      else (let p1 = rev (dropWhile (\<lambda>c. c = CHR ''/'') (rev p));
                p2 = (case LastIndexByte p1 CHR ''/'' of
                        None \<Rightarrow> p1
                      | Some i \<Rightarrow> drop (i + 1) p1)
            in if p2 = [] then ''/'' else p2))"

text \<open>\<open>path.Join\<close> of two elements.\<close>

definition path_Join :: "string \<Rightarrow> string \<Rightarrow> string" where
  "path_Join a b =
     (if a = [] \<and> b = [] then []
      else if a = [] then path_Clean b
      else path_Clean (a @ ''/'' @ b))"

text \<open>\<open>filepath.Ext\<close>: the suffix from the last dot of the last element on, scanning
  from the end of the path; the accumulator is what has been passed.\<close>

fun Ext_scan :: "string \<Rightarrow> string \<Rightarrow> string" where
  "Ext_scan [] acc = []"
| "Ext_scan (c # cs) acc =
     (if c = CHR ''/'' then []
      else if c = CHR ''.'' then c # acc
      else Ext_scan cs (c # acc))"

definition filepath_Ext :: "string \<Rightarrow> string" where
  "filepath_Ext p = Ext_scan (rev p) []"

subsection \<open>Package sort\<close>

text \<open>
  \<open>sort.Search(n, f)\<close>: the binary search loop of the library,
  \<^verbatim>\<open>i, j := 0, n; for i < j { h := int(uint(i+j) >> 1); if !f(h) { i = h + 1 } else { j = h } }; return i\<close>.
\<close>

function Search_loop :: "(nat \<Rightarrow> bool) \<Rightarrow> nat \<Rightarrow> nat \<Rightarrow> nat" where
  "Search_loop f i j =
     (if i < j then
        (if \<not> f ((i + j) div 2) then Search_loop f ((i + j) div 2 + 1) j
         else Search_loop f i ((i + j) div 2))
      else i)"
  by pat_completeness auto
termination
  by (relation "measure (\<lambda>(f, i, j). j - i)") auto

declare Search_loop.simps [simp del]

definition Search :: "nat \<Rightarrow> (nat \<Rightarrow> bool) \<Rightarrow> nat" where
  "Search n f = Search_loop f 0 n"

section \<open>Errors and file records\<close>

datatype error =
    ErrNotExist                        \<comment> \<open>\<open>os.ErrNotExist\<close>\<close>
  | PathError string string error      \<comment> \<open>\<open>&os.PathError{Op, Path, Err}\<close>\<close>
  | Errorf string                      \<comment> \<open>an error made by \<open>fmt.Errorf\<close> or \<open>errors.New\<close>\<close>
  | ErrPermission                      \<comment> \<open>a host I/O failure\<close>
  | EOF                                \<comment> \<open>\<open>io.EOF\<close>\<close>
  | ErrNotSupported                    \<comment> \<open>\<open>vfs.ErrNotSupported\<close>\<close>
  | Autofs_ErrNotSupported             \<comment> \<open>\<open>autofs.ErrNotSupported\<close>\<close>
  | Autofs_ErrDir                      \<comment> \<open>\<open>autofs.ErrDir\<close>\<close>
  | Zip_ErrFormat                      \<comment> \<open>\<open>zip.ErrFormat\<close>\<close>
  | Zip_ErrAlgorithm                   \<comment> \<open>\<open>zip.ErrAlgorithm\<close>\<close>
  | ReadAfterClose                     \<comment> \<open>reading a stream whose source is closed\<close>
  | Panic string                       \<comment> \<open>a run-time panic\<close>

text \<open>\<open>os.IsNotExist\<close> looks through a \<open>PathError\<close>.\<close>

fun IsNotExist :: "error \<Rightarrow> bool" where
  "IsNotExist ErrNotExist = True"
| "IsNotExist (PathError opn p e) = IsNotExist e"
| "IsNotExist _ = False"

type_synonym Time = int        \<comment> \<open>\<open>time.Time\<close>, 0 for the zero value \<open>time.Time{}\<close>\<close>
type_synonym FileMode = "32 word"
type_synonym int64 = "64 word"

definition ModeDir :: FileMode where
  "ModeDir = push_bit 31 1"

text \<open>The permission bits written in octal in the sources: 0555, 0444, 0222 and
  \<open>os.ModePerm\<close> = 0777.\<close>

definition perm_0555 :: FileMode where "perm_0555 = 5 * 64 + 5 * 8 + 5"
definition perm_0444 :: FileMode where "perm_0444 = 4 * 64 + 4 * 8 + 4"
definition perm_0222 :: FileMode where "perm_0222 = 2 * 64 + 2 * 8 + 2"
definition ModePerm :: FileMode where "ModePerm = 7 * 64 + 7 * 8 + 7"

text \<open>What an \<open>os.FileInfo\<close> value answers to its methods.\<close>

record FileInfo =
  Name :: string
  Size :: int64
  Mode :: FileMode
  ModTime :: Time
  IsDir :: bool

section \<open>Package zipfs\<close>

record zip_FileHeader =
  zh_Name :: string
  zh_UncompressedSize :: "32 word"
  zh_UncompressedSize64 :: "64 word"
  zh_ModTime :: Time

record zip_fileInfo =
  zfi_name :: string
  zfi_file :: "zip_FileHeader option"

definition zip_Size :: "zip_fileInfo \<Rightarrow> int64" where
  "zip_Size fi = (case zfi_file fi of Some f \<Rightarrow> ucast (zh_UncompressedSize f) | None \<Rightarrow> 0)"

definition zip_ModTime :: "zip_fileInfo \<Rightarrow> Time" where
  "zip_ModTime fi = (case zfi_file fi of Some f \<Rightarrow> zh_ModTime f | None \<Rightarrow> 0)"

definition zip_Mode :: "zip_fileInfo \<Rightarrow> FileMode" where
  "zip_Mode fi = (if zfi_file fi = None then ModeDir OR perm_0555 else perm_0444)"

definition zip_IsDir :: "zip_fileInfo \<Rightarrow> bool" where
  "zip_IsDir fi = (zfi_file fi = None)"

definition zip_FileInfo :: "zip_fileInfo \<Rightarrow> FileInfo" where
  "zip_FileInfo fi =
     \<lparr>Name = zfi_name fi, Size = zip_Size fi, Mode = zip_Mode fi,
      ModTime = zip_ModTime fi, IsDir = zip_IsDir fi\<rparr>"

text \<open>The table \<open>fs.list\<close> that \<open>open\<close> builds: the headers of the archive in the order of
  \<open>sort.SliceStable\<close> by \<open>Name\<close>.\<close>

definition zipfs_list :: "zip_FileHeader list \<Rightarrow> zip_FileHeader list" where
  "zipfs_list files = sort_key zh_Name files"

definition zipfs_lookup :: "zip_FileHeader list \<Rightarrow> string \<Rightarrow> int \<times> bool" where
  "zipfs_lookup list name =
     (let i = Search (length list) (\<lambda>i. name \<le> zh_Name (list ! i)) in
      if i \<ge> length list then (- 1, False)
      else if zh_Name (list ! i) = name then (int i, True)
      else
        (let list' = drop i list;
             name' = name @ ''/'';
             j = Search (length list') (\<lambda>i. name' \<le> zh_Name (list' ! i))
         in if j \<ge> length list' then (- 1, False)
            else if HasPrefix (zh_Name (list' ! j)) name' then (int (i + j), False)
            else (- 1, False)))"

definition zipPath :: "string \<Rightarrow> error + string" where
  "zipPath name =
     (let name' = path_Clean name in
      if \<not> path_IsAbs name' then Inl (Errorf (''stat: not an absolute path: '' @ name'))
      else Inr (drop 1 name'))"

definition isRoot :: "string \<Rightarrow> bool" where
  "isRoot abspath = (path_Clean abspath = ''/'')"

definition zipfs_stat :: "zip_FileHeader list \<Rightarrow> string \<Rightarrow> error + (int \<times> zip_fileInfo)" where
  "zipfs_stat list abspath =
     (if isRoot abspath then Inr (0, \<lparr>zfi_name = [], zfi_file = None\<rparr>)
      else
        (case zipPath abspath of
           Inl err \<Rightarrow> Inl err
         | Inr zippath \<Rightarrow>
             (case zipfs_lookup list zippath of
                (i, exact) \<Rightarrow>
                  if i < 0 then Inl (PathError [] (''/'' @ zippath) ErrNotExist)
                  else Inr (i, \<lparr>zfi_name = snd (path_Split zippath),
                                zfi_file = (if exact then Some (list ! nat i) else None)\<rparr>))))"

fun zipfs_Readdir_loop :: "string \<Rightarrow> string \<Rightarrow> zip_FileHeader list \<Rightarrow> zip_fileInfo list" where
  "zipfs_Readdir_loop dirname prevname [] = []"
| "zipfs_Readdir_loop dirname prevname (e # es) =
     (if \<not> HasPrefix (zh_Name e) dirname then []
      else
        (let name = drop (length dirname) (zh_Name e);
             fi = (case Index name CHR ''/'' of
                     Some i \<Rightarrow> \<lparr>zfi_name = take i name, zfi_file = None\<rparr>
                   | None \<Rightarrow> \<lparr>zfi_name = name, zfi_file = Some e\<rparr>)
         in if zfi_name fi \<noteq> prevname
            then fi # zipfs_Readdir_loop dirname (zfi_name fi) es
            else zipfs_Readdir_loop dirname prevname es))"

definition zipfs_Readdir :: "zip_FileHeader list \<Rightarrow> string \<Rightarrow> error + FileInfo list" where
  "zipfs_Readdir list abspath =
     (case zipfs_stat list abspath of
        Inl err \<Rightarrow> Inl err
      | Inr (i, fi) \<Rightarrow>
          if \<not> zip_IsDir fi then Inl (Errorf (''zipfs: '' @ abspath @ '' is not a directory''))
          else
            (case (if isRoot abspath then Inr []
                   else map_sum id (\<lambda>zippath. zippath @ ''/'') (zipPath abspath)) of
               Inl err \<Rightarrow> Inl err
             | Inr dirname \<Rightarrow>
                 Inr (map zip_FileInfo (zipfs_Readdir_loop dirname [] (drop (nat i) list)))))"

section \<open>Package rarfs\<close>

definition ModeSymlink :: FileMode where "ModeSymlink = push_bit 27 1"
definition ModeDevice :: FileMode where "ModeDevice = push_bit 26 1"
definition ModeNamedPipe :: FileMode where "ModeNamedPipe = push_bit 25 1"
definition ModeSocket :: FileMode where "ModeSocket = push_bit 24 1"

record rar_FileHeader =
  rh_Name :: string
  rh_IsDir :: bool
  rh_UnPackedSize :: int64
  rh_ModificationTime :: Time
  rh_Mode :: FileMode                  \<comment> \<open>the value of the method \<open>Mode()\<close>\<close>

record rar_fileInfo =
  rfi_name :: string
  rfi_file :: "rar_FileHeader option"

definition rar_Size :: "rar_fileInfo \<Rightarrow> int64" where
  "rar_Size fi = (case rfi_file fi of Some f \<Rightarrow> rh_UnPackedSize f | None \<Rightarrow> 0)"

definition rar_ModTime :: "rar_fileInfo \<Rightarrow> Time" where
  "rar_ModTime fi = (case rfi_file fi of Some f \<Rightarrow> rh_ModificationTime f | None \<Rightarrow> 0)"

definition rar_Mode :: "rar_fileInfo \<Rightarrow> FileMode" where
  "rar_Mode fi =
     (case rfi_file fi of
        None \<Rightarrow> ModeDir OR perm_0555
      | Some f \<Rightarrow> rh_Mode f AND NOT perm_0222)"

definition rar_IsDir :: "rar_fileInfo \<Rightarrow> bool" where
  "rar_IsDir fi = (case rfi_file fi of None \<Rightarrow> True | Some f \<Rightarrow> rh_IsDir f)"

definition rar_FileInfo :: "rar_fileInfo \<Rightarrow> FileInfo" where
  "rar_FileInfo fi =
     \<lparr>Name = rfi_name fi, Size = rar_Size fi, Mode = rar_Mode fi,
      ModTime = rar_ModTime fi, IsDir = rar_IsDir fi\<rparr>"

text \<open>
  An archive as its decoder delivers it: the entries that \<open>Next\<close> returns one after the
  other, each with the bytes of the member, and the error that ends the sequence
  (\<open>io.EOF\<close> after the last entry of a well-formed archive).
\<close>

type_synonym 'h entries = "('h \<times> string) list \<times> error"

text \<open>The text of an error, \<open>err.Error()\<close>, as far as the packages compare it.\<close>

fun err_Error :: "error \<Rightarrow> string" where
  "err_Error EOF = ''EOF''"
| "err_Error (Errorf msg) = msg"
| "err_Error _ = ''error''"

text \<open>The loop \<open>reading\<close> of \<open>open\<close>: special files are left out, the name of a
  directory gets a slash appended.\<close>

fun rarfs_reading :: "rar_FileHeader entries \<Rightarrow> error + rar_FileHeader list" where
  "rarfs_reading ([], err) =
     (if err_Error err = ''rardecode: bad header crc'' then Inl ErrNotSupported
      else if err_Error err = ''rardecode: unsupported decoder version'' then Inl ErrNotSupported
      else if err_Error err = err_Error EOF then Inr []
      else Inl err)"
| "rarfs_reading ((f, content) # rest, err) =
     (if rh_Mode f AND (ModeDevice OR ModeSocket OR ModeNamedPipe OR ModeSymlink) \<noteq> 0
      then rarfs_reading (rest, err)
      else
        (case rarfs_reading (rest, err) of
           Inl e \<Rightarrow> Inl e
         | Inr list \<Rightarrow>
             Inr ((if rh_IsDir f then f\<lparr>rh_Name := rh_Name f @ ''/''\<rparr> else f) # list)))"

definition rarfs_list :: "rar_FileHeader entries \<Rightarrow> error + rar_FileHeader list" where
  "rarfs_list z = map_sum id (sort_key rh_Name) (rarfs_reading z)"

definition rarfs_lookup :: "rar_FileHeader list \<Rightarrow> string \<Rightarrow> int \<times> bool" where
  "rarfs_lookup list name =
     (let i = Search (length list) (\<lambda>i. name \<le> rh_Name (list ! i)) in
      if i \<ge> length list then (- 1, False)
      else if rh_Name (list ! i) = name then (int i, True)
      else
        (let list' = drop i list;
             name' = name @ ''/'';
             j = Search (length list') (\<lambda>i. name' \<le> rh_Name (list' ! i))
         in if j \<ge> length list' then (- 1, False)
            else if HasPrefix (rh_Name (list' ! j)) name' then (int (i + j), False)
            else (- 1, False)))"

definition rarPath :: "string \<Rightarrow> error + string" where
  "rarPath name =
     (let name' = path_Clean name in
      if \<not> path_IsAbs name' then Inl (Errorf (''stat: not an absolute path: '' @ name'))
      else Inr (drop 1 name'))"

definition rarfs_stat :: "rar_FileHeader list \<Rightarrow> string \<Rightarrow> error + (int \<times> rar_fileInfo)" where
  "rarfs_stat list abspath =
     (if isRoot abspath then Inr (0, \<lparr>rfi_name = [], rfi_file = None\<rparr>)
      else
        (case rarPath abspath of
           Inl err \<Rightarrow> Inl err
         | Inr rarpath \<Rightarrow>
             (case rarfs_lookup list rarpath of
                (i, exact) \<Rightarrow>
                  if i < 0 then Inl (PathError [] (''/'' @ rarpath) ErrNotExist)
                  else Inr (i, \<lparr>rfi_name = snd (path_Split rarpath),
                                rfi_file = (if exact then Some (list ! nat i) else None)\<rparr>))))"

fun rarfs_Readdir_loop :: "string \<Rightarrow> string \<Rightarrow> rar_FileHeader list \<Rightarrow> rar_fileInfo list" where
  "rarfs_Readdir_loop dirname prevname [] = []"
| "rarfs_Readdir_loop dirname prevname (e # es) =
     (if \<not> HasPrefix (rh_Name e) dirname then []
      else
        (let name = drop (length dirname) (rh_Name e);
             fi = (case Index name CHR ''/'' of
                     Some i \<Rightarrow> \<lparr>rfi_name = take i name, rfi_file = None\<rparr>
                   | None \<Rightarrow> \<lparr>rfi_name = name, rfi_file = Some e\<rparr>)
         in if rfi_name fi \<noteq> prevname
            then fi # rarfs_Readdir_loop dirname (rfi_name fi) es
            else rarfs_Readdir_loop dirname prevname es))"

definition rarfs_Readdir :: "rar_FileHeader list \<Rightarrow> string \<Rightarrow> error + FileInfo list" where
  "rarfs_Readdir list abspath =
     (case rarfs_stat list abspath of
        Inl err \<Rightarrow> Inl err
      | Inr (i, fi) \<Rightarrow>
          if \<not> rar_IsDir fi then Inl (Errorf (''rarfs: '' @ abspath @ '' is not a directory''))
          else
            (case (if isRoot abspath then Inr []
                   else map_sum id (\<lambda>rarpath. rarpath @ ''/'') (rarPath abspath)) of
               Inl err \<Rightarrow> Inl err
             | Inr dirname \<Rightarrow>
                 Inr (map rar_FileInfo (rarfs_Readdir_loop dirname [] (drop (nat i) list)))))"

section \<open>Package tarfs\<close>

record tar_Header =
  th_Name :: string
  th_Size :: int64
  th_ModTime :: Time
  th_Mode :: FileMode                  \<comment> \<open>the value of \<open>FileInfo().Mode()\<close>\<close>

record tar_fileInfo =
  tfi_name :: string
  tfi_file :: "tar_Header option"

definition tar_IsDir :: "tar_fileInfo \<Rightarrow> bool" where
  "tar_IsDir fi = (case tfi_file fi of None \<Rightarrow> True | Some f \<Rightarrow> th_Mode f AND ModeDir \<noteq> 0)"

definition clean :: "string \<Rightarrow> string" where
  "clean name = drop 1 (path_Clean (''/'' @ name))"

fun tarfs_reading :: "tar_Header entries \<Rightarrow> error + tar_Header list" where
  "tarfs_reading ([], err) = (if err = EOF then Inr [] else Inl err)"
| "tarfs_reading ((h, content) # rest, err) =
     (case tarfs_reading (rest, err) of
        Inl e \<Rightarrow> Inl e
      | Inr list \<Rightarrow> Inr (h # list))"

definition tarfs_list :: "tar_Header entries \<Rightarrow> error + tar_Header list" where
  "tarfs_list z = map_sum id (sort_key (\<lambda>h. clean (th_Name h))) (tarfs_reading z)"

text \<open>The second test reads \<open>fs.list[i]\<close> of the shortened table; an index outside it
  is a run-time panic.\<close>

definition tarfs_lookup :: "tar_Header list \<Rightarrow> string \<Rightarrow> error + (int \<times> bool)" where
  "tarfs_lookup list name =
     (let i = Search (length list) (\<lambda>i. name \<le> clean (th_Name (list ! i))) in
      if i \<ge> length list then Inr (- 1, False)
      else if clean (th_Name (list ! i)) = name then Inr (int i, True)
      else
        (let list' = drop i list;
             name' = name @ ''/'';
             j = Search (length list') (\<lambda>i. name' \<le> clean (th_Name (list' ! i)))
         in if j \<ge> length list' then Inr (- 1, False)
            else if i \<ge> length list' then Inl (Panic ''index out of range'')
            else if HasPrefix (clean (th_Name (list' ! i))) name' then Inr (int (i + j), False)
            else Inr (- 1, False)))"

definition tarfs_stat :: "tar_Header list \<Rightarrow> string \<Rightarrow> error + (int \<times> tar_fileInfo)" where
  "tarfs_stat list abspath =
     (if isRoot abspath then Inr (0, \<lparr>tfi_name = [], tfi_file = None\<rparr>)
      else
        (let tarpath = clean abspath in
         case tarfs_lookup list tarpath of
           Inl err \<Rightarrow> Inl err
         | Inr (i, exact) \<Rightarrow>
             if i < 0 then Inl (PathError [] (''/'' @ tarpath) ErrNotExist)
             else Inr (i, \<lparr>tfi_name = path_Clean (''/'' @ snd (path_Split tarpath)),
                           tfi_file = (if exact then Some (list ! nat i) else None)\<rparr>)))"

section \<open>Streams\<close>

text \<open>
  The byte sources and decode cursors are objects that several values refer to, so they
  live in a store, addressed by their position in it.
  \<^item> \<open>File st dec nop closed\<close> is a \<open>fileLike\<close> that an opener returned: \<open>st\<close> is the
    error of its \<open>Stat\<close>, if any; \<open>dec\<close> is what the container decoder makes of its
    bytes; \<open>nop\<close> says that its \<open>Close\<close> does nothing (the \<open>testNullCloser\<close> of the zipfs
    test); \<open>closed\<close> that it has been closed.
  \<^item> \<open>Reader src pending term unread closed\<close> is a decode cursor over the file at \<open>src\<close>:
    the entries that \<open>Next\<close> has not visited yet, the error that ends them, the bytes of
    the current member that have not been read, and whether the cursor was closed.
  Reading a cursor that is at the end of its member yields no bytes; reading one that
  still has bytes fails once the cursor or its file is closed. This is what the decoders
  do for a member that is read to its end before anything is closed, and for a member
  with bytes whose decoder reads from the file at each call (a deflated zip member).
  Bytes that a decoder has read ahead of the cursor, the reader of a stored zip member
  (which ignores \<open>Close\<close>) and a member without bytes on a closed file are outside the
  model; no statement below reads a stream in such a state.
\<close>

datatype 'h obj =
    File "error option" "error + 'h entries" bool bool
  | Reader nat "('h \<times> string) list" error string bool

type_synonym 'h heap = "'h obj list"
type_synonym 'h opener = "'h heap \<Rightarrow> (error + nat) \<times> 'h heap"

definition file_Stat :: "nat \<Rightarrow> 'h heap \<Rightarrow> error option" where
  "file_Stat a h =
     (if a < length h then (case h ! a of File st dec nop cl \<Rightarrow> st | _ \<Rightarrow> None) else None)"

definition file_decoded :: "nat \<Rightarrow> 'h heap \<Rightarrow> error + 'h entries" where
  "file_decoded a h =
     (if a < length h
      then (case h ! a of File st dec nop cl \<Rightarrow> dec | _ \<Rightarrow> Inl (Panic ''not a file''))
      else Inl (Panic ''not a file''))"

definition file_closed :: "nat \<Rightarrow> 'h heap \<Rightarrow> bool" where
  "file_closed a h =
     (if a < length h then (case h ! a of File st dec nop cl \<Rightarrow> cl | _ \<Rightarrow> False) else False)"

definition file_Close :: "nat \<Rightarrow> 'h heap \<Rightarrow> 'h heap" where
  "file_Close a h =
     (if a < length h
      then (case h ! a of
              File st dec nop cl \<Rightarrow> h[a := File st dec nop (cl \<or> \<not> nop)]
            | _ \<Rightarrow> h)
      else h)"

definition reader_Close :: "nat \<Rightarrow> 'h heap \<Rightarrow> 'h heap" where
  "reader_Close a h =
     (if a < length h
      then (case h ! a of
              Reader src pending term unread cl \<Rightarrow> h[a := Reader src pending term unread True]
            | _ \<Rightarrow> h)
      else h)"

text \<open>\<open>ioutil.ReadAll\<close> on a cursor.\<close>

definition ReadAll :: "nat \<Rightarrow> 'h heap \<Rightarrow> (error + string) \<times> 'h heap" where
  "ReadAll a h =
     (if a < length h
      then (case h ! a of
              Reader src pending term unread cl \<Rightarrow>
                if unread = [] then (Inr [], h)
                else if cl \<or> file_closed src h then (Inl ReadAfterClose, h)
                else (Inr unread, h[a := Reader src pending term [] cl])
            | _ \<Rightarrow> (Inl (Panic ''not a reader''), h))
      else (Inl (Panic ''not a reader''), h))"

text \<open>The stream that \<open>Open\<close> returns. In zipfs \<open>Closer\<close> is the archive reader (closing
  it closes the file) and the reading field is the member's \<open>ReadCloser\<close>; in tarfs and
  rarfs both fields are the archive reader \<open>z\<close>, which closes its file and reads from its
  decode cursor.\<close>

record 'h emulatedRSC =
  rsc_Closer :: nat
  rsc_Reader :: nat
  rsc_name :: string
  rsc_open :: "'h opener"

text \<open>The loops over \<open>z.File\<close> and over \<open>z.Next()\<close> that look for a name: the entry found
  and the entries after it.\<close>

fun scan :: "('h \<Rightarrow> string) \<Rightarrow> string \<Rightarrow> ('h \<times> string) list
    \<Rightarrow> (('h \<times> string) \<times> ('h \<times> string) list) option" where
  "scan nm target [] = None"
| "scan nm target ((h, content) # rest) =
     (if nm h = target then Some ((h, content), rest) else scan nm target rest)"

subsection \<open>zipfs\<close>

record zip_fileSystem =
  zfs_name :: string
  zfs_list :: "zip_FileHeader list"
  zfs_open :: "zip_FileHeader opener"

definition zipfs_openReadCloser :: "zip_FileHeader opener \<Rightarrow> zip_FileHeader heap
    \<Rightarrow> (error + nat \<times> (zip_FileHeader \<times> string) list) \<times> zip_FileHeader heap" where
  "zipfs_openReadCloser opn h =
     (case opn h of
        (Inl err, h1) \<Rightarrow> (Inl err, h1)
      | (Inr f, h1) \<Rightarrow>
          (case file_Stat f h1 of
             Some err \<Rightarrow> (Inl err, file_Close f h1)
           | None \<Rightarrow>
               (case file_decoded f h1 of
                  Inl err \<Rightarrow>
                    (Inl (if err = Zip_ErrAlgorithm then ErrNotSupported
                          else if err = Zip_ErrFormat then ErrNotSupported
                          else err),
                     file_Close f h1)
                | Inr (files, term) \<Rightarrow> (Inr (f, files), h1))))"

text \<open>\<open>open\<close>: the file system of an archive, or the error of opening it.\<close>

definition zipfs_open :: "string \<Rightarrow> zip_FileHeader opener \<Rightarrow> zip_FileHeader heap
    \<Rightarrow> (error + zip_fileSystem) \<times> zip_FileHeader heap" where
  "zipfs_open name opn h =
     (case zipfs_openReadCloser opn h of
        (Inl err, h1) \<Rightarrow> (Inl err, h1)
      | (Inr (f, files), h1) \<Rightarrow>
          (Inr \<lparr>zfs_name = name, zfs_list = zipfs_list (map fst files), zfs_open = opn\<rparr>,
           file_Close f h1))"

definition zipfs_Open :: "zip_fileSystem \<Rightarrow> string \<Rightarrow> zip_FileHeader heap
    \<Rightarrow> (error + zip_FileHeader emulatedRSC) \<times> zip_FileHeader heap" where
  "zipfs_Open fs abspath h =
     (case zipfs_stat (zfs_list fs) abspath of
        Inl err \<Rightarrow> (Inl err, h)
      | Inr (i, fi) \<Rightarrow>
          (case zfi_file fi of
             None \<Rightarrow> (Inl (Errorf (''zipfs: '' @ abspath @ '' is a directory'')), h)
           | Some file \<Rightarrow>
               (case zipfs_openReadCloser (zfs_open fs) h of
                  (Inl err, h1) \<Rightarrow> (Inl err, h1)
                | (Inr (f, files), h1) \<Rightarrow>
                    (case scan zh_Name (zh_Name file) files of
                       None \<Rightarrow> (Inl (Panic ''unreachable''), file_Close f h1)
                     | Some ((found, content), rest) \<Rightarrow>
                         (Inr \<lparr>rsc_Closer = f, rsc_Reader = length h1,
                               rsc_name = zh_Name found, rsc_open = zfs_open fs\<rparr>,
                          file_Close f (h1 @ [Reader f [] EOF content False]))))))"

text \<open>
  \<open>Seek\<close> has a value receiver: \<open>rsc.ReadCloser = r\<close> assigns to the copy of the stream
  that the call works on. The first component is the result, the second that copy when
  the method returns; the stream of the caller is the argument, as it was.
\<close>

definition zipfs_Seek :: "zip_FileHeader emulatedRSC \<Rightarrow> int \<Rightarrow> int \<Rightarrow> zip_FileHeader heap
    \<Rightarrow> (error + int) \<times> zip_FileHeader emulatedRSC \<times> zip_FileHeader heap" where
  "zipfs_Seek rsc offset whence h =
     (if whence = 0 \<and> offset = 0 then
        (case rsc_open rsc h of
           (Inl err, h1) \<Rightarrow> (Inl err, rsc, h1)
         | (Inr r, h1) \<Rightarrow> (Inr 0, rsc\<lparr>rsc_Reader := r\<rparr>, reader_Close (rsc_Reader rsc) h1))
      else (Inl (Errorf (''unsupported Seek in '' @ rsc_name rsc)), rsc, h))"

text \<open>The loop of \<open>TestOpenSeek\<close> in the test file of zipfs: \<open>n\<close> times, read the stream
  \<open>f\<close> to its end and seek to offset 0; the result is what each round read.\<close>

fun read_and_rewind :: "nat \<Rightarrow> zip_FileHeader emulatedRSC \<Rightarrow> zip_FileHeader heap
    \<Rightarrow> (error + string) list" where
  "read_and_rewind 0 f h = []"
| "read_and_rewind (Suc n) f h =
     (case ReadAll (rsc_Reader f) h of
        (content, h1) \<Rightarrow>
          (case zipfs_Seek f 0 0 h1 of
             (r, f_copy, h2) \<Rightarrow> content # read_and_rewind n f h2))"

subsection \<open>tarfs\<close>

record tar_fileSystem =
  tfs_name :: string
  tfs_list :: "tar_Header list"
  tfs_open :: "tar_Header opener"

text \<open>The archive reader \<open>z\<close>: the address of its decode cursor and of its file.\<close>

definition tarfs_openReadCloser :: "tar_Header opener \<Rightarrow> tar_Header heap
    \<Rightarrow> (error + nat \<times> nat) \<times> tar_Header heap" where
  "tarfs_openReadCloser opn h =
     (case opn h of
        (Inl err, h1) \<Rightarrow> (Inl err, h1)
      | (Inr f, h1) \<Rightarrow>
          (case file_Stat f h1 of
             Some err \<Rightarrow> (Inl err, file_Close f h1)
           | None \<Rightarrow>
               (case file_decoded f h1 of
                  Inl err \<Rightarrow> (Inl err, file_Close f h1)
                | Inr (es, term) \<Rightarrow> (Inr (length h1, f), h1 @ [Reader f es term [] False]))))"

text \<open>\<open>open\<close>: the file system of an archive; the loop \<open>reading\<close> visits every entry.\<close>

definition tarfs_open :: "string \<Rightarrow> tar_Header opener \<Rightarrow> tar_Header heap
    \<Rightarrow> (error + tar_fileSystem) \<times> tar_Header heap" where
  "tarfs_open name opn h =
     (case tarfs_openReadCloser opn h of
        (Inl e, h1) \<Rightarrow> (Inl e, h1)
      | (Inr (z, f), h1) \<Rightarrow>
          (case h1 ! z of
             Reader src pending term unread cl \<Rightarrow>
               (case tarfs_list (pending, term) of
                  Inl e \<Rightarrow> (Inl e, file_Close f (h1[z := Reader src [] term [] cl]))
                | Inr list \<Rightarrow>
                    (Inr \<lparr>tfs_name = name, tfs_list = list, tfs_open = opn\<rparr>,
                     file_Close f (h1[z := Reader src [] term [] cl])))
           | _ \<Rightarrow> (Inl (Panic ''not a reader''), h1)))"

definition tarfs_Open :: "tar_fileSystem \<Rightarrow> string \<Rightarrow> tar_Header heap
    \<Rightarrow> (error + tar_Header emulatedRSC) \<times> tar_Header heap" where
  "tarfs_Open fs abspath h =
     (case tarfs_stat (tfs_list fs) abspath of
        Inl err \<Rightarrow> (Inl err, h)
      | Inr (i, info) \<Rightarrow>
          if tar_IsDir info then (Inl (Errorf (''tarfs: '' @ abspath @ '' is a directory'')), h)
          else
            (case tarfs_openReadCloser (tfs_open fs) h of
               (Inl err, h1) \<Rightarrow> (Inl err, h1)
             | (Inr (z, f), h1) \<Rightarrow>
                 (case h1 ! z of
                    Reader src pending term unread cl \<Rightarrow>
                      (case scan th_Name (tfi_name info) pending of
                         None \<Rightarrow> (Inl term, file_Close f (h1[z := Reader src [] term [] cl]))
                       | Some ((found, content), rest) \<Rightarrow>
                           (Inr \<lparr>rsc_Closer = f, rsc_Reader = z,
                                 rsc_name = th_Name found, rsc_open = tfs_open fs\<rparr>,
                            file_Close f (h1[z := Reader src rest term content cl])))
                  | _ \<Rightarrow> (Inl (Panic ''not a reader''), h1))))"

definition tarfs_Seek :: "tar_Header emulatedRSC \<Rightarrow> int \<Rightarrow> int \<Rightarrow> tar_Header heap
    \<Rightarrow> (error + int) \<times> tar_Header emulatedRSC \<times> tar_Header heap" where
  "tarfs_Seek rsc offset whence h =
     (if whence = 0 \<and> offset = 0 then
        (case rsc_open rsc h of
           (Inl err, h1) \<Rightarrow> (Inl err, rsc, h1)
         | (Inr z, h1) \<Rightarrow> (Inr 0, rsc\<lparr>rsc_Closer := z\<rparr>, file_Close (rsc_Closer rsc) h1))
      else (Inl (Errorf (''unsupported Seek in '' @ rsc_name rsc)), rsc, h))"

subsection \<open>rarfs\<close>

record rar_fileSystem =
  rfs_name :: string
  rfs_list :: "rar_FileHeader list"
  rfs_open :: "rar_FileHeader opener"

definition rarfs_openReadCloser :: "rar_FileHeader opener \<Rightarrow> rar_FileHeader heap
    \<Rightarrow> (error + nat \<times> nat) \<times> rar_FileHeader heap" where
  "rarfs_openReadCloser opn h =
     (case opn h of
        (Inl err, h1) \<Rightarrow> (Inl err, h1)
      | (Inr f, h1) \<Rightarrow>
          (case file_Stat f h1 of
             Some err \<Rightarrow> (Inl err, file_Close f h1)
           | None \<Rightarrow>
               (case file_decoded f h1 of
                  Inl err \<Rightarrow> (Inl err, file_Close f h1)
                | Inr (es, term) \<Rightarrow> (Inr (length h1, f), h1 @ [Reader f es term [] False]))))"

definition rarfs_open :: "string \<Rightarrow> rar_FileHeader opener \<Rightarrow> rar_FileHeader heap
    \<Rightarrow> (error + rar_fileSystem) \<times> rar_FileHeader heap" where
  "rarfs_open name opn h =
     (case rarfs_openReadCloser opn h of
        (Inl e, h1) \<Rightarrow>
          (if err_Error e = ''rardecode: bad header crc'' then (Inl ErrNotSupported, h1)
           else if err_Error e = ''rardecode: unsupported decoder version''
           then (Inl ErrNotSupported, h1)
           else (Inl e, h1))
      | (Inr (z, f), h1) \<Rightarrow>
          (case h1 ! z of
             Reader src pending term unread cl \<Rightarrow>
               (case rarfs_list (pending, term) of
                  Inl e \<Rightarrow> (Inl e, file_Close f (h1[z := Reader src [] term [] cl]))
                | Inr list \<Rightarrow>
                    (Inr \<lparr>rfs_name = name, rfs_list = list, rfs_open = opn\<rparr>,
                     file_Close f (h1[z := Reader src [] term [] cl])))
           | _ \<Rightarrow> (Inl (Panic ''not a reader''), h1)))"

definition rarfs_Open :: "rar_fileSystem \<Rightarrow> string \<Rightarrow> rar_FileHeader heap
    \<Rightarrow> (error + rar_FileHeader emulatedRSC) \<times> rar_FileHeader heap" where
  "rarfs_Open fs abspath h =
     (case rarfs_stat (rfs_list fs) abspath of
        Inl err \<Rightarrow> (Inl err, h)
      | Inr (i, fi) \<Rightarrow>
          if rar_IsDir fi then (Inl (Errorf (''rarfs: '' @ abspath @ '' is a directory'')), h)
          else
            (case rarfs_openReadCloser (rfs_open fs) h of
               (Inl err, h1) \<Rightarrow> (Inl err, h1)
             | (Inr (z, f), h1) \<Rightarrow>
                 (case h1 ! z of
                    Reader src pending term unread cl \<Rightarrow>
                      (case scan rh_Name (rfi_name fi) pending of
                         None \<Rightarrow> (Inl term, file_Close f (h1[z := Reader src [] term [] cl]))
                       | Some ((found, content), rest) \<Rightarrow>
                           (Inr \<lparr>rsc_Closer = f, rsc_Reader = z,
                                 rsc_name = rh_Name found, rsc_open = rfs_open fs\<rparr>,
                            file_Close f (h1[z := Reader src rest term content cl])))
                  | _ \<Rightarrow> (Inl (Panic ''not a reader''), h1))))"

section \<open>Package vfs: the scope\<close>

text \<open>A \<open>FileSystem\<close> is the interface value: what its methods answer. The stream of
  \<open>Open\<close> stands for the bytes it delivers.\<close>

record FileSystem =
  fs_Stat :: "string \<Rightarrow> error + FileInfo"
  fs_Lstat :: "string \<Rightarrow> error + FileInfo"
  fs_Open :: "string \<Rightarrow> error + string"
  fs_Readdir :: "string \<Rightarrow> error + FileInfo list"
  fs_String :: string

definition vfs_empty :: FileSystem where
  "vfs_empty =
     \<lparr>fs_Stat = (\<lambda>p. if p = ''/''
                      then Inr \<lparr>Name = ''/'', Size = 0, Mode = ModeDir OR ModePerm,
                               ModTime = 0, IsDir = True\<rparr>
                      else Inl ErrNotExist),
      fs_Lstat = (\<lambda>p. if p = ''/''
                       then Inr \<lparr>Name = ''/'', Size = 0, Mode = ModeDir OR ModePerm,
                                ModTime = 0, IsDir = True\<rparr>
                       else Inl ErrNotExist),
      fs_Open = (\<lambda>n. if n = ''/'' then Inl (Errorf ''open: / is a directory'')
                      else Inl ErrNotExist),
      fs_Readdir = (\<lambda>p. if p = ''/'' then Inr [] else Inl ErrNotExist),
      fs_String = ''empty(/)''\<rparr>"

text \<open>The struct \<open>fileSystem\<close> of the package: one bind.\<close>

record vfs_fileSystem =
  mount_root :: string
  mount_base :: string
  mount_fs :: FileSystem

definition hasPathPrefix :: "string \<Rightarrow> string \<Rightarrow> bool" where
  "hasPathPrefix x y =
     (x = y \<or> HasPrefix x y \<and> (HasSuffix y ''/'' \<or> HasPrefix (drop (length y) x) ''/''))"

definition translate :: "vfs_fileSystem \<Rightarrow> string \<Rightarrow> error + string" where
  "translate m name =
     (let name' = path_Clean (''/'' @ name) in
      if \<not> hasPathPrefix name' (mount_root m)
      then Inl (Panic (''translate '' @ name' @ '' but old='' @ mount_root m))
      else Inr (path_Join (mount_base m) (drop (length (mount_root m)) name')))"

text \<open>The map \<open>Scope\<close>, as the list of its keys with their binds; a key occurs once.
  The order of the list is one of the orders in which \<open>range\<close> may visit the map.\<close>

type_synonym Scope = "(string \<times> vfs_fileSystem list) list"

definition scope_set :: "Scope \<Rightarrow> string \<Rightarrow> vfs_fileSystem list \<Rightarrow> Scope" where
  "scope_set scope k v =
     (if k \<in> fst ` set scope then map (\<lambda>(k', v'). if k' = k then (k', v) else (k', v')) scope
      else scope @ [(k, v)])"

definition scope_clean :: "string \<Rightarrow> string" where
  "scope_clean name = path_Clean (''/'' @ name)"

text \<open>The loop of \<open>resolve\<close>; \<open>None\<close> is the loop that does not end.\<close>

partial_function (option) resolve_loop :: "Scope \<Rightarrow> string \<Rightarrow> vfs_fileSystem list option" where
  "resolve_loop scope name =
     (case map_of scope name of
        Some m \<Rightarrow> Some m
      | None \<Rightarrow> if name = ''/'' then Some [] else resolve_loop scope (path_Dir name))"

declare resolve_loop.simps [code]

definition resolve :: "Scope \<Rightarrow> string \<Rightarrow> vfs_fileSystem list option" where
  "resolve scope name = resolve_loop scope (scope_clean name)"

datatype BindMode = BindReplace | BindBefore | BindAfter

text \<open>
  The loop \<open>for _, mount := range mounts\<close> of \<open>Bind\<close>. The variable \<open>mount\<close> is a copy of
  the element of the slice: the two assignments change the copy (\<open>mount'\<close> below), the
  slice keeps the element. The result is the slice after the loop, or the panic.
\<close>

fun Bind_extend :: "string \<Rightarrow> vfs_fileSystem list \<Rightarrow> error + vfs_fileSystem list" where
  "Bind_extend root [] = Inr []"
| "Bind_extend root (mount # mounts) =
     (if mount_root mount \<noteq> root then
        (if \<not> hasPathPrefix root (mount_root mount)
         then Inl (Panic (''invalid Bind: root='' @ root))
         else
           (let suffix = drop (length (mount_root mount)) root;
                mount' = mount\<lparr>mount_root := path_Join (mount_root mount) suffix,
                               mount_base := path_Join (mount_base mount) suffix\<rparr>
            in map_sum id (\<lambda>rest. mount # rest) (Bind_extend root mounts)))
      else map_sum id (\<lambda>rest. mount # rest) (Bind_extend root mounts))"

definition Bind :: "Scope \<Rightarrow> string \<Rightarrow> string \<Rightarrow> FileSystem \<Rightarrow> BindMode
    \<Rightarrow> (error + Scope) option" where
  "Bind scope root base fs mode =
     (let root' = scope_clean root;
          base' = scope_clean base;
          newFS = \<lparr>mount_root = root', mount_base = base', mount_fs = fs\<rparr>
      in case (case mode of
                 BindReplace \<Rightarrow> Some [newFS]
               | BindBefore \<Rightarrow> map_option (\<lambda>old. newFS # old) (resolve scope root')
               | BindAfter \<Rightarrow> map_option (\<lambda>old. old @ [newFS]) (resolve scope root')) of
           None \<Rightarrow> None
         | Some mounts \<Rightarrow>
             Some (case Bind_extend root' mounts of
                     Inl err \<Rightarrow> Inl err
                   | Inr mounts' \<Rightarrow> Inr (scope_set scope root' mounts')))"

definition NewScope :: "(error + Scope) option" where
  "NewScope = Bind [] ''/'' ''/'' vfs_empty BindReplace"

text \<open>The loop of \<open>Open\<close> over the binds; \<open>err\<close> is the error kept so far.\<close>

fun Scope_Open_loop :: "string \<Rightarrow> error option \<Rightarrow> vfs_fileSystem list \<Rightarrow> error + string" where
  "Scope_Open_loop name err [] =
     (case err of
        None \<Rightarrow> Inl (PathError ''open'' name ErrNotExist)
      | Some e \<Rightarrow> Inl e)"
| "Scope_Open_loop name err (m # ms) =
     (case translate m name of
        Inl p \<Rightarrow> Inl p
      | Inr tname \<Rightarrow>
          (case fs_Open (mount_fs m) tname of
             Inr r \<Rightarrow> Inr r
           | Inl err1 \<Rightarrow>
               Scope_Open_loop name
                 (case err of
                    None \<Rightarrow> Some err1
                  | Some e \<Rightarrow> if IsNotExist e then Some err1 else Some e) ms))"

definition Scope_Open :: "Scope \<Rightarrow> string \<Rightarrow> (error + string) option" where
  "Scope_Open scope name = map_option (Scope_Open_loop name None) (resolve scope name)"

text \<open>The loop of \<open>stat\<close>; \<open>f\<close> is \<open>FileSystem.Stat\<close> or \<open>FileSystem.Lstat\<close>.\<close>

fun Scope_stat_loop :: "(FileSystem \<Rightarrow> string \<Rightarrow> error + FileInfo) \<Rightarrow> string \<Rightarrow> error option
    \<Rightarrow> vfs_fileSystem list \<Rightarrow> error + FileInfo" where
  "Scope_stat_loop f name err [] =
     (case err of
        None \<Rightarrow> Inl (PathError ''stat'' name ErrNotExist)
      | Some e \<Rightarrow> Inl e)"
| "Scope_stat_loop f name err (mount # mounts) =
     (case translate mount name of
        Inl p \<Rightarrow> Inl p
      | Inr tname \<Rightarrow>
          (case f (mount_fs mount) tname of
             Inr info \<Rightarrow> Inr info
           | Inl err1 \<Rightarrow>
               Scope_stat_loop f name
                 (case err of None \<Rightarrow> Some err1 | Some e \<Rightarrow> Some e) mounts))"

definition Scope_stat :: "Scope \<Rightarrow> string \<Rightarrow> (FileSystem \<Rightarrow> string \<Rightarrow> error + FileInfo)
    \<Rightarrow> (error + FileInfo) option" where
  "Scope_stat scope name f = map_option (Scope_stat_loop f name None) (resolve scope name)"

definition Scope_Stat :: "Scope \<Rightarrow> string \<Rightarrow> (error + FileInfo) option" where
  "Scope_Stat scope name = Scope_stat scope name fs_Stat"

definition Scope_Lstat :: "Scope \<Rightarrow> string \<Rightarrow> (error + FileInfo) option" where
  "Scope_Lstat scope name = Scope_stat scope name fs_Lstat"

text \<open>The value \<open>dirInfo(elem)\<close> of the package.\<close>

definition vfs_dirInfo :: "string \<Rightarrow> FileInfo" where
  "vfs_dirInfo d = \<lparr>Name = d, Size = 0, Mode = ModeDir OR perm_0555, ModTime = 0, IsDir = True\<rparr>"

text \<open>The variables of \<open>Readdir\<close>.\<close>

record readdir_vars =
  rv_haveGo :: bool
  rv_haveName :: "string set"
  rv_all :: "FileInfo list"
  rv_err :: "error option"
  rv_first :: "FileInfo list option"

text \<open>The loop \<open>for _, d := range dir\<close> that adds the entries of one bind.\<close>

fun Readdir_add :: "bool \<Rightarrow> FileInfo list \<Rightarrow> readdir_vars \<Rightarrow> readdir_vars" where
  "Readdir_add useFiles [] v = v"
| "Readdir_add useFiles (d # dir) v =
     (if (IsDir d \<or> useFiles) \<and> Name d \<notin> rv_haveName v
      then Readdir_add useFiles dir (v\<lparr>rv_haveName := insert (Name d) (rv_haveName v), rv_all := rv_all v @ [d]\<rparr>)
      else Readdir_add useFiles dir v)"

text \<open>The loop over the binds.\<close>

fun Readdir_mounts :: "string \<Rightarrow> vfs_fileSystem list \<Rightarrow> readdir_vars \<Rightarrow> error + readdir_vars" where
  "Readdir_mounts name [] v = Inr v"
| "Readdir_mounts name (m # ms) v =
     (case translate m name of
        Inl p \<Rightarrow> Inl p
      | Inr tname \<Rightarrow>
          (case fs_Readdir (mount_fs m) tname of
             Inl err1 \<Rightarrow>
               Readdir_mounts name ms (if rv_err v = None then v\<lparr>rv_err := Some err1\<rparr> else v)
           | Inr dir \<Rightarrow>
               (let v1 = (if rv_first v = None then v\<lparr>rv_first := Some dir\<rparr> else v);
                    useFiles = (\<not> rv_haveGo v1 \<and> (\<exists>d\<in>set dir. HasSuffix (Name d) ''.go''));
                    v2 = (if useFiles then v1\<lparr>rv_haveGo := True\<rparr> else v1)
                in Readdir_mounts name ms (Readdir_add useFiles dir v2))))"

text \<open>The loop over \<open>first\<close> when no bind had Go files.\<close>

fun Readdir_first :: "FileInfo list \<Rightarrow> readdir_vars \<Rightarrow> readdir_vars" where
  "Readdir_first [] v = v"
| "Readdir_first (d # ds) v =
     (if Name d \<notin> rv_haveName v
      then Readdir_first ds (v\<lparr>rv_haveName := insert (Name d) (rv_haveName v), rv_all := rv_all v @ [d]\<rparr>)
      else Readdir_first ds v)"

text \<open>The loop \<open>for old := range scope\<close> that adds the directories leading to mount
  points below \<open>name\<close>.\<close>

fun Readdir_reach :: "string \<Rightarrow> string list \<Rightarrow> readdir_vars \<Rightarrow> readdir_vars" where
  "Readdir_reach name [] v = v"
| "Readdir_reach name (old # olds) v =
     (if hasPathPrefix old name \<and> old \<noteq> name then
        (let elem0 = TrimPrefix (drop (length name) old) ''/'';
             elem = (case Index elem0 CHR ''/'' of Some i \<Rightarrow> take i elem0 | None \<Rightarrow> elem0)
         in if elem \<notin> rv_haveName v
            then Readdir_reach name olds
                   (v\<lparr>rv_haveName := insert elem (rv_haveName v), rv_all := rv_all v @ [vfs_dirInfo elem]\<rparr>)
            else Readdir_reach name olds v)
      else Readdir_reach name olds v)"

text \<open>\<open>sort.Sort(byName(all))\<close>: the names in \<open>all\<close> differ from each other, so every
  sorting procedure gives the same list.\<close>

definition Scope_Readdir :: "Scope \<Rightarrow> string \<Rightarrow> (error + FileInfo list) option" where
  "Scope_Readdir scope name0 =
     (let name = scope_clean name0 in
      case resolve scope name of
        None \<Rightarrow> None
      | Some mounts \<Rightarrow>
          Some
            (case Readdir_mounts name mounts
                    \<lparr>rv_haveGo = False, rv_haveName = {}, rv_all = [], rv_err = None, rv_first = None\<rparr> of
               Inl p \<Rightarrow> Inl p
             | Inr v \<Rightarrow>
                 (let v1 = (if \<not> rv_haveGo v
                            then Readdir_first (case rv_first v of None \<Rightarrow> [] | Some ds \<Rightarrow> ds) v
                            else v);
                      v2 = Readdir_reach name (map fst scope) v1
                  in if rv_all v2 = []
                     then (case rv_err v2 of None \<Rightarrow> Inr [] | Some e \<Rightarrow> Inl e)
                     else Inr (sort_key Name (rv_all v2)))))"

section \<open>Package autofs\<close>

definition hasFileSystem :: "string \<Rightarrow> bool" where
  "hasFileSystem ext = (ext = ''.rar'' \<or> ext = ''.tar'' \<or> ext = ''.zip'')"

text \<open>The struct \<open>dirInfo\<close> of the package, as the record its methods answer.\<close>

definition autofs_dirInfo :: "string \<Rightarrow> int64 \<Rightarrow> Time \<Rightarrow> FileInfo" where
  "autofs_dirInfo name sz modTime =
     \<lparr>Name = name, Size = sz, Mode = ModeDir OR perm_0555, ModTime = modTime, IsDir = True\<rparr>"

text \<open>
  The map \<open>overlay\<close>: \<open>None\<close> for a key that is absent, \<open>Some None\<close> for a key that holds
  the nil interface value, \<open>Some (Some fs)\<close> for a mounted file system.
\<close>

type_synonym overlay = "string \<Rightarrow> FileSystem option option"

text \<open>The entry points \<open>rarfs.OpenFile\<close>, \<open>tarfs.OpenFile\<close> and \<open>zipfs.OpenFile\<close>, which
  read the named file of the scope with the parser of their container format. In the
  functions below, \<open>lower\<close> is the library function \<open>strings.ToLower\<close>.\<close>

record packages =
  rarfs_OpenFile :: "Scope \<Rightarrow> string \<Rightarrow> error + FileSystem"
  tarfs_OpenFile :: "Scope \<Rightarrow> string \<Rightarrow> error + FileSystem"
  zipfs_OpenFile :: "Scope \<Rightarrow> string \<Rightarrow> error + FileSystem"

definition openFileSystem :: "(string \<Rightarrow> string) \<Rightarrow> packages \<Rightarrow> Scope \<Rightarrow> string \<Rightarrow> (error + FileSystem) option" where
  "openFileSystem lower pk scope name =
     (case Scope_Stat scope name of
        None \<Rightarrow> None
      | Some (Inl e) \<Rightarrow> Some (Inl e)
      | Some (Inr info) \<Rightarrow>
          Some (if IsDir info then Inl Autofs_ErrDir
                else
                  (let ext = lower (filepath_Ext (Name info)) in
                   if ext = ''.rar'' then rarfs_OpenFile pk scope name
                   else if ext = ''.tar'' then tarfs_OpenFile pk scope name
                   else if ext = ''.zip'' then zipfs_OpenFile pk scope name
                   else Inl Autofs_ErrNotSupported)))"

definition autofs_clean :: "string \<Rightarrow> string" where
  "autofs_clean name = path_Clean (''/'' @ name)"

lemma Index_less: "Index s c = Some i \<Longrightarrow> i < length s"
  by (induction s arbitrary: i) (auto split: if_splits)

lemma LastIndexByte_less: "LastIndexByte s c = Some i \<Longrightarrow> i < length s"
  by (auto simp: LastIndexByte_def split: option.splits dest: Index_less)

text \<open>The loop that walks from \<open>dir\<close> up through its ancestors looking for a key of the
  overlay: the value found with the \<open>base\<close> at that moment, or \<open>None\<close> after the
  \<open>break\<close>.\<close>

function overlay_walk :: "overlay \<Rightarrow> string \<Rightarrow> string \<Rightarrow> (FileSystem option \<times> string) option" where
  "overlay_walk ov dir base =
     (case ov dir of
        Some ofs \<Rightarrow> Some (ofs, base)
      | None \<Rightarrow>
          (case LastIndexByte dir CHR ''/'' of
             Some i \<Rightarrow> overlay_walk ov (take i dir) (drop i dir)
           | None \<Rightarrow> None))"
  by pat_completeness auto
termination
  by (relation "measure (\<lambda>(ov, dir, base). length dir)") (auto dest: LastIndexByte_less)

declare overlay_walk.simps [simp del]

text \<open>A step result put in front of the result of the rest of the loop.\<close>

fun probing_cons :: "FileInfo \<Rightarrow> ((error + FileInfo list) \<times> overlay) option
    \<Rightarrow> ((error + FileInfo list) \<times> overlay) option" where
  "probing_cons info None = None"
| "probing_cons info (Some (Inl e, ov)) = Some (Inl e, ov)"
| "probing_cons info (Some (Inr infos, ov)) = Some (Inr (info # infos), ov)"

text \<open>The loop \<open>probing\<close> of \<open>Readdir\<close> over the records that the scope listed. The
  assignment \<open>fs.overlay[full], err = fs.openFileSystem(full)\<close> stores the nil value under
  the key when the call fails; the key is deleted again only for \<open>vfs.ErrNotSupported\<close>.\<close>

fun probing :: "(string \<Rightarrow> string) \<Rightarrow> packages \<Rightarrow> Scope \<Rightarrow> string \<Rightarrow> FileInfo list \<Rightarrow> overlay
    \<Rightarrow> ((error + FileInfo list) \<times> overlay) option" where
  "probing lower pk scope name [] ov = Some (Inr [], ov)"
| "probing lower pk scope name (info # infos) ov =
     (let full = path_Join name (path_Base (Name info)) in
      if ov full \<noteq> None then
        probing_cons (autofs_dirInfo (Name info) (Size info) (ModTime info))
          (probing lower pk scope name infos ov)
      else if hasFileSystem (lower (filepath_Ext full)) then
        (case openFileSystem lower pk scope full of
           None \<Rightarrow> None
         | Some (Inl e) \<Rightarrow>
             if e = ErrNotSupported
             then probing_cons info (probing lower pk scope name infos (ov(full := None)))
             else Some (Inl e, ov(full := Some None))
         | Some (Inr ofs) \<Rightarrow>
             probing_cons (autofs_dirInfo (Name info) (Size info) (ModTime info))
               (probing lower pk scope name infos (ov(full := Some (Some ofs)))))
      else probing_cons info (probing lower pk scope name infos ov))"

definition autofs_Readdir :: "(string \<Rightarrow> string) \<Rightarrow> packages \<Rightarrow> Scope \<Rightarrow> string \<Rightarrow> overlay
    \<Rightarrow> ((error + FileInfo list) \<times> overlay) option" where
  "autofs_Readdir lower pk scope name0 ov =
     (let name = autofs_clean name0 in
      case overlay_walk ov name ''/'' of
        Some (None, base) \<Rightarrow> Some (Inl (Panic ''nil pointer dereference''), ov)
      | Some (Some ofs, base) \<Rightarrow> Some (fs_Readdir ofs base, ov)
      | None \<Rightarrow>
          (case Scope_Readdir scope name of
             None \<Rightarrow> None
           | Some (Inl e) \<Rightarrow> Some (Inl e, ov)
           | Some (Inr infos) \<Rightarrow> probing lower pk scope name infos ov))"

text \<open>\<open>stat\<close> does not use its second parameter.\<close>

definition autofs_stat :: "(string \<Rightarrow> string) \<Rightarrow> Scope \<Rightarrow> string \<Rightarrow> (string \<Rightarrow> (error + FileInfo) option)
    \<Rightarrow> (error + FileInfo) option" where
  "autofs_stat lower scope name stat =
     (case Scope_Stat scope name of
        None \<Rightarrow> None
      | Some (Inl e) \<Rightarrow> Some (Inl e)
      | Some (Inr info) \<Rightarrow>
          Some (Inr (if hasFileSystem (lower (filepath_Ext (Name info)))
                     then autofs_dirInfo (Name info) (Size info) (ModTime info)
                     else info)))"

text \<open>\<open>Lstat\<close> and \<open>Stat\<close>, with the overlay as it is when they return.\<close>

definition autofs_Lstat :: "(string \<Rightarrow> string) \<Rightarrow> Scope \<Rightarrow> string \<Rightarrow> overlay \<Rightarrow> ((error + FileInfo) \<times> overlay) option" where
  "autofs_Lstat lower scope name0 ov =
     (let name = autofs_clean name0 in
      if ov name \<noteq> None then Some (Inr (autofs_dirInfo name 0 0), ov)
      else
        (case overlay_walk ov name ''/'' of
           Some (None, base) \<Rightarrow> Some (Inl (Panic ''nil pointer dereference''), ov)
         | Some (Some ofs, base) \<Rightarrow> Some (fs_Lstat ofs base, ov)
         | None \<Rightarrow> map_option (\<lambda>r. (r, ov)) (autofs_stat lower scope name (Scope_Lstat scope))))"

definition autofs_Stat :: "(string \<Rightarrow> string) \<Rightarrow> Scope \<Rightarrow> string \<Rightarrow> overlay \<Rightarrow> ((error + FileInfo) \<times> overlay) option" where
  "autofs_Stat lower scope name0 ov =
     (let name = autofs_clean name0 in
      if ov name \<noteq> None then Some (Inr (autofs_dirInfo name 0 0), ov)
      else
        (case overlay_walk ov name ''/'' of
           Some (None, base) \<Rightarrow> Some (Inl (Panic ''nil pointer dereference''), ov)
         | Some (Some ofs, base) \<Rightarrow> Some (fs_Stat ofs base, ov)
         | None \<Rightarrow> map_option (\<lambda>r. (r, ov)) (autofs_stat lower scope name (Scope_Stat scope))))"

section \<open>The listings of a scope in the words of the specification\<close>

text \<open>What one bind answers to \<open>Readdir\<close> of the scope: the listing of its file system at
  the translated path.\<close>

definition bind_listing :: "string \<Rightarrow> vfs_fileSystem \<Rightarrow> error + FileInfo list" where
  "bind_listing name m =
     (case translate m name of Inl p \<Rightarrow> Inl p | Inr tname \<Rightarrow> fs_Readdir (mount_fs m) tname)"

text \<open>The results that succeeded, in order, and the first error.\<close>

fun successes :: "(error + 'a) list \<Rightarrow> 'a list" where
  "successes [] = []"
| "successes (Inl e # rs) = successes rs"
| "successes (Inr x # rs) = x # successes rs"

fun first_error :: "(error + 'a) list \<Rightarrow> error option" where
  "first_error [] = None"
| "first_error (Inl e # rs) = Some e"
| "first_error (Inr x # rs) = first_error rs"

text \<open>"Deduplicated by name": of the records with one name the first is kept; \<open>seen\<close>
  holds the names that are taken already.\<close>

fun dedup_seen :: "string set \<Rightarrow> FileInfo list \<Rightarrow> FileInfo list" where
  "dedup_seen seen [] = []"
| "dedup_seen seen (d # ds) =
     (if Name d \<in> seen then dedup_seen seen ds else d # dedup_seen (insert (Name d) seen) ds)"

text \<open>The path element below \<open>name\<close> on the way to the mount key \<open>old\<close>, and these elements
  for the mount keys that lie strictly below \<open>name\<close>.\<close>

definition reach_elem :: "string \<Rightarrow> string \<Rightarrow> string" where
  "reach_elem name old =
     (let elem0 = TrimPrefix (drop (length name) old) ''/''
      in case Index elem0 CHR ''/'' of Some i \<Rightarrow> take i elem0 | None \<Rightarrow> elem0)"

definition reach_elems :: "string \<Rightarrow> string list \<Rightarrow> string list" where
  "reach_elems name keys =
     map (reach_elem name) (filter (\<lambda>old. hasPathPrefix old name \<and> old \<noteq> name) keys)"

text \<open>"The union of directory entries from every bind, plus all entries from the first
  bind that returned successfully, deduplicated by name", followed by the synthetic
  directories of the mount keys below.\<close>

definition merged_union :: "FileInfo list list \<Rightarrow> string list \<Rightarrow> FileInfo list" where
  "merged_union dirs elems =
     dedup_seen {}
       (concat (map (filter IsDir) dirs) @ (case dirs of [] \<Rightarrow> [] | d # ds \<Rightarrow> d) @
        map vfs_dirInfo elems)"

text \<open>"The union of the directory-only entries from both binds with duplicate names
  collapsed", in the order of a listing.\<close>

definition claimed_dir_union :: "FileInfo list list \<Rightarrow> FileInfo list" where
  "claimed_dir_union dirs = sort_key Name (dedup_seen {} (concat (map (filter IsDir) dirs)))"

section \<open>The entries that autofs probes\<close>

text \<open>The path \<open>full\<close> under which \<open>Readdir(name0)\<close> probes and mounts the record \<open>info\<close>.\<close>

definition probe_path :: "string \<Rightarrow> FileInfo \<Rightarrow> string" where
  "probe_path name0 info = path_Join (autofs_clean name0) (path_Base (Name info))"

text \<open>The record \<open>info'\<close> returned for \<open>info\<close> is \<open>info\<close> itself when its path is not mounted
  and opening it fails with \<open>vfs.ErrNotSupported\<close>.\<close>

definition kept_if_unsupported :: "(string \<Rightarrow> string) \<Rightarrow> packages \<Rightarrow> Scope \<Rightarrow> string \<Rightarrow> overlay
    \<Rightarrow> FileInfo \<Rightarrow> FileInfo \<Rightarrow> bool" where
  "kept_if_unsupported lower pk scope name ov info info' =
     (if ov (path_Join name (path_Base (Name info))) = None \<and>
         openFileSystem lower pk scope (path_Join name (path_Base (Name info))) = Some (Inl ErrNotSupported)
      then info' = info else True)"

section \<open>Notions used in the proofs\<close>

text \<open>The elements of a cleaned rooted path: not empty, not \<open>.\<close>, not \<open>..\<close>, and
  without a slash.\<close>

definition clean_elems :: "string list \<Rightarrow> bool" where
  "clean_elems es = (\<forall>e\<in>set es. e \<noteq> [] \<and> e \<noteq> ''.'' \<and> e \<noteq> ''..'' \<and> CHR ''/'' \<notin> set e)"

text \<open>What holds of the variables of \<open>Readdir\<close> all along: the names in \<open>all\<close> differ
  from each other and are in \<open>haveName\<close>.\<close>

definition listing_invariant :: "readdir_vars \<Rightarrow> bool" where
  "listing_invariant v = (distinct (map Name (rv_all v)) \<and> Name ` set (rv_all v) \<subseteq> rv_haveName v)"

text \<open>What one bind answers to a call of the scope that is passed on to its file system,
  and the errors among such answers, in order.\<close>

definition bind_call :: "(FileSystem \<Rightarrow> string \<Rightarrow> error + 'a) \<Rightarrow> string \<Rightarrow> vfs_fileSystem
    \<Rightarrow> error + 'a" where
  "bind_call f name m =
     (case translate m name of Inl p \<Rightarrow> Inl p | Inr tname \<Rightarrow> f (mount_fs m) tname)"

fun failures :: "(error + 'a) list \<Rightarrow> error list" where
  "failures [] = []"
| "failures (Inl e # rs) = e # failures rs"
| "failures (Inr x # rs) = failures rs"

text \<open>The error that the loop of \<open>Open\<close> keeps when the binds fail with the given errors:
  the assignment \<open>if err == nil || os.IsNotExist(err) { err = err1 }\<close> for each.\<close>

fun preferred_error :: "error option \<Rightarrow> error list \<Rightarrow> error option" where
  "preferred_error err [] = err"
| "preferred_error err (e # es) =
     (case err of
        None \<Rightarrow> preferred_error (Some e) es
      | Some e0 \<Rightarrow> if IsNotExist e0 then preferred_error (Some e) es else Some e0)"

text \<open>What a call returned, seen from its caller: the error of a call that failed and
  the value of a call that succeeded, for a call with and without a state; and whether a
  key of the overlay holds the nil value.\<close>

definition failure :: "(error + 'a) option \<Rightarrow> error option" where
  "failure r = (case r of Some (Inl e) \<Rightarrow> Some e | _ \<Rightarrow> None)"

definition call_failure :: "((error + 'a) \<times> 's) option \<Rightarrow> error option" where
  "call_failure r = (case r of Some (Inl e, s) \<Rightarrow> Some e | _ \<Rightarrow> None)"

definition call_value :: "((error + 'a) \<times> 's) option \<Rightarrow> 'a option" where
  "call_value r = (case r of Some (Inr x, s) \<Rightarrow> Some x | _ \<Rightarrow> None)"

definition key_holds_nil :: "overlay \<Rightarrow> string \<Rightarrow> bool" where
  "key_holds_nil ov k = (case ov k of Some None \<Rightarrow> True | _ \<Rightarrow> False)"

section \<open>Example inputs\<close>

text \<open>A member of 4 GiB and 5 bytes whose 32-bit size field holds the low 32 bits, and
  the header of such a member in the zip64 format, where the 32-bit field holds
  \<open>0xFFFFFFFF\<close> and the size stands in the 64-bit field.\<close>

definition big_member :: zip_FileHeader where
  "big_member = \<lparr>zh_Name = ''big'', zh_UncompressedSize = 5,
                 zh_UncompressedSize64 = 4294967301, zh_ModTime = 0\<rparr>"

definition zip64_member :: zip_FileHeader where
  "zip64_member = \<lparr>zh_Name = ''big'', zh_UncompressedSize = 4294967295,
                   zh_UncompressedSize64 = 4294967301, zh_ModTime = 0\<rparr>"

text \<open>Members of archives: a header with a name and the size of the content, and the
  content.\<close>

definition zip_member :: "string \<Rightarrow> string \<Rightarrow> zip_FileHeader \<times> string" where
  "zip_member name content =
     (\<lparr>zh_Name = name, zh_UncompressedSize = of_nat (length content),
       zh_UncompressedSize64 = of_nat (length content), zh_ModTime = 0\<rparr>, content)"

definition rar_member :: "string \<Rightarrow> string \<Rightarrow> rar_FileHeader \<times> string" where
  "rar_member name content =
     (\<lparr>rh_Name = name, rh_IsDir = False, rh_UnPackedSize = of_nat (length content),
       rh_ModificationTime = 0, rh_Mode = perm_0444\<rparr>, content)"


definition tar_member :: "string \<Rightarrow> string \<Rightarrow> tar_Header \<times> string" where
  "tar_member name content =
     (\<lparr>th_Name = name, th_Size = of_nat (length content), th_ModTime = 0,
       th_Mode = perm_0444\<rparr>, content)"


text \<open>An opener over an archive with the given members: every call returns a new file.
  With \<open>nop\<close> the file ignores \<open>Close\<close>, as the byte reader of the zipfs test does.\<close>

definition archive_opener :: "bool \<Rightarrow> ('h \<times> string) list \<Rightarrow> 'h opener" where
  "archive_opener nop es h = (Inr (length h), h @ [File None (Inr (es, EOF)) nop False])"

text \<open>The archive of the zipfs test: \<open>foo\<close>, \<open>bar/baz\<close> and \<open>a/b/c\<close>.\<close>

definition test_zip :: "(zip_FileHeader \<times> string) list" where
  "test_zip = [zip_member ''foo'' ''foo'', zip_member ''bar/baz'' ''baz'', zip_member ''a/b/c'' ''c'']"

definition test_rar :: "(rar_FileHeader \<times> string) list" where
  "test_rar = [rar_member ''foo'' ''foo'', rar_member ''bar/baz'' ''baz'', rar_member ''a/b/c'' ''c'']"

definition test_tar :: "(tar_Header \<times> string) list" where
  "test_tar = [tar_member ''foo'' ''foo'', tar_member ''bar/baz'' ''baz'', tar_member ''a/b/c'' ''c'']"

text \<open>Backing file systems for a scope: one whose every call fails with a given error,
  and one whose root directory holds the files and directories of given records.\<close>

definition file_rec :: "string \<Rightarrow> FileInfo" where
  "file_rec n = \<lparr>Name = n, Size = 1, Mode = perm_0444, ModTime = 0, IsDir = False\<rparr>"

definition failing_fs :: "error \<Rightarrow> FileSystem" where
  "failing_fs e =
     \<lparr>fs_Stat = (\<lambda>p. Inl e), fs_Lstat = (\<lambda>p. Inl e), fs_Open = (\<lambda>p. Inl e),
      fs_Readdir = (\<lambda>p. Inl e), fs_String = ''failing''\<rparr>"

definition listing_fs :: "FileInfo list \<Rightarrow> FileSystem" where
  "listing_fs infos =
     \<lparr>fs_Stat = (\<lambda>p. case find (\<lambda>i. ''/'' @ Name i = p) infos of
                        Some i \<Rightarrow> Inr i | None \<Rightarrow> Inl ErrNotExist),
      fs_Lstat = (\<lambda>p. case find (\<lambda>i. ''/'' @ Name i = p) infos of
                         Some i \<Rightarrow> Inr i | None \<Rightarrow> Inl ErrNotExist),
      fs_Open = (\<lambda>p. case find (\<lambda>i. ''/'' @ Name i = p) infos of
                        Some i \<Rightarrow> Inr ''bytes'' | None \<Rightarrow> Inl ErrNotExist),
      fs_Readdir = (\<lambda>p. if p = ''/'' then Inr infos else Inl ErrNotExist),
      fs_String = ''listing''\<rparr>"

text \<open>A further \<open>Bind\<close> on the scope that earlier calls made.\<close>

definition bind_in :: "(error + Scope) option \<Rightarrow> string \<Rightarrow> string \<Rightarrow> FileSystem \<Rightarrow> BindMode
    \<Rightarrow> (error + Scope) option" where
  "bind_in r root base fs mode =
     (case r of Some (Inr scope) \<Rightarrow> Bind scope root base fs mode | other \<Rightarrow> other)"

text \<open>\<open>NewScope()\<close>, then a bind after the inherited one at \<open>/a\<close>.\<close>

definition scope_bind_below :: "(error + Scope) option" where
  "scope_bind_below = bind_in NewScope ''/a'' ''/x'' (failing_fs ErrPermission) BindAfter"

text \<open>Two binds at \<open>/\<close>: the first answers "not exist", the second a permission error.\<close>

definition scope_notexist_then_permission :: "(error + Scope) option" where
  "scope_notexist_then_permission =
     bind_in (bind_in NewScope ''/'' ''/'' (failing_fs ErrNotExist) BindReplace)
       ''/'' ''/'' (failing_fs ErrPermission) BindAfter"

text \<open>Two binds at \<open>/\<close> without Go files: the first lists a directory and a file, the
  second two directories and a file.\<close>

definition scope_two_listings :: "(error + Scope) option" where
  "scope_two_listings =
     bind_in
       (bind_in NewScope ''/'' ''/'' (listing_fs [vfs_dirInfo ''d'', file_rec ''f'']) BindReplace)
       ''/'' ''/'' (listing_fs [vfs_dirInfo ''e'', file_rec ''g'', vfs_dirInfo ''d'']) BindAfter"

text \<open>A scope whose root directory holds the files \<open>broken.ZIP\<close> and \<open>readme.txt\<close>, as
  \<open>Bind("/", "/", fs, BindReplace)\<close> makes it, and packages for which no file is an
  archive.\<close>

definition scope_broken_zip :: Scope where
  "scope_broken_zip =
     [(''/'', [\<lparr>mount_root = ''/'', mount_base = ''/'',
               mount_fs = listing_fs [file_rec ''broken.ZIP'', file_rec ''readme.txt'']\<rparr>])]"

definition no_archive_packages :: packages where
  "no_archive_packages =
     \<lparr>rarfs_OpenFile = (\<lambda>scope name. Inl ErrNotSupported),
      tarfs_OpenFile = (\<lambda>scope name. Inl (Errorf ''archive/tar: invalid tar header'')),
      zipfs_OpenFile = (\<lambda>scope name. Inl ErrNotSupported)\<rparr>"

text \<open>The overlay of a new autofs.\<close>

definition empty_overlay :: overlay where
  "empty_overlay = (\<lambda>k. None)"

text \<open>A scope whose root directory holds the file \<open>broken.zip\<close> and the directory
  \<open>photos.zip\<close>; one whose root directory holds the files \<open>broken.zip\<close> and
  \<open>secret.zip\<close>; and packages for which \<open>secret.zip\<close> cannot be read and no other file is
  an archive.\<close>

definition scope_zip_candidates :: Scope where
  "scope_zip_candidates =
     [(''/'', [\<lparr>mount_root = ''/'', mount_base = ''/'',
               mount_fs = listing_fs [file_rec ''broken.zip'', vfs_dirInfo ''photos.zip'']\<rparr>])]"

definition scope_unreadable_zip :: Scope where
  "scope_unreadable_zip =
     [(''/'', [\<lparr>mount_root = ''/'', mount_base = ''/'',
               mount_fs = listing_fs [file_rec ''broken.zip'', file_rec ''secret.zip'']\<rparr>])]"

definition unreadable_packages :: packages where
  "unreadable_packages =
     \<lparr>rarfs_OpenFile = (\<lambda>scope name. Inl ErrNotSupported),
      tarfs_OpenFile = (\<lambda>scope name. Inl (Errorf ''archive/tar: invalid tar header'')),
      zipfs_OpenFile = (\<lambda>scope name. if name = ''/secret.zip'' then Inl ErrPermission
                                     else Inl ErrNotSupported)\<rparr>"

text \<open>A scope whose root directory holds the file \<open>b.tar\<close> of 1024 bytes, which is no tar
  archive, and the overlay after \<open>Readdir("/")\<close> on a new autofs over it.\<close>

definition garbage_file :: "string \<Rightarrow> FileInfo" where
  "garbage_file n = \<lparr>Name = n, Size = 1024, Mode = perm_0444, ModTime = 1700000000, IsDir = False\<rparr>"

definition scope_broken_tar :: Scope where
  "scope_broken_tar =
     [(''/'', [\<lparr>mount_root = ''/'', mount_base = ''/'',
               mount_fs = listing_fs [garbage_file ''b.tar'']\<rparr>])]"

definition overlay_after_listing :: overlay where
  "overlay_after_listing =
     (case autofs_Readdir ToLower_ascii no_archive_packages scope_broken_tar ''/'' empty_overlay of
        Some (r, ov) \<Rightarrow> ov
      | None \<Rightarrow> empty_overlay)"

text \<open>A file system whose root directory holds the symbolic link \<open>x.zip\<close> to a file that
  does not exist: \<open>Lstat\<close> describes the link, \<open>Stat\<close> and \<open>Open\<close> fail.\<close>

definition dangling_link_fs :: FileSystem where
  "dangling_link_fs =
     \<lparr>fs_Stat = (\<lambda>p. if p = ''/'' then Inr (vfs_dirInfo ''/'') else Inl ErrNotExist),
      fs_Lstat = (\<lambda>p. if p = ''/'' then Inr (vfs_dirInfo ''/'')
                       else if p = ''/x.zip'' then Inr (file_rec ''x.zip'')
                       else Inl ErrNotExist),
      fs_Open = (\<lambda>p. Inl ErrNotExist),
      fs_Readdir = (\<lambda>p. if p = ''/'' then Inr [file_rec ''x.zip''] else Inl ErrNotExist),
      fs_String = ''dangling''\<rparr>"

definition scope_dangling_link :: Scope where
  "scope_dangling_link =
     [(''/'', [\<lparr>mount_root = ''/'', mount_base = ''/'', mount_fs = dangling_link_fs\<rparr>])]"

text \<open>The two binds of \<open>scope_two_listings\<close> and the scope they make.\<close>

definition two_listings_mounts :: "vfs_fileSystem list" where
  "two_listings_mounts =
     [\<lparr>mount_root = ''/'', mount_base = ''/'',
       mount_fs = listing_fs [vfs_dirInfo ''d'', file_rec ''f'']\<rparr>,
      \<lparr>mount_root = ''/'', mount_base = ''/'',
       mount_fs = listing_fs [vfs_dirInfo ''e'', file_rec ''g'', vfs_dirInfo ''d'']\<rparr>]"

definition two_listings_scope :: Scope where
  "two_listings_scope = [(''/'', two_listings_mounts)]"

section \<open>Properties of the library functions\<close>













section \<open>The loop of resolve ends\<close>

text \<open>
  \<open>scope.clean\<close> returns a rooted path of clean elements, and \<open>path.Dir\<close> of such a path
  is the path without its last element; so the loop of \<open>resolve\<close> reaches \<open>/\<close>, where
  it returns.
\<close>

lemma splitSlash_not_Nil: "splitSlash p \<noteq> []"
  by (induction p) (auto split: list.splits)

lemma splitSlash_no_slash: "e \<in> set (splitSlash p) \<Longrightarrow> CHR ''/'' \<notin> set e"
  by (induction p arbitrary: e) (auto split: list.splits if_splits)

lemma splitSlash_append: "splitSlash (xs @ CHR ''/'' # ys) = splitSlash xs @ splitSlash ys"
proof (induction xs)
  case Nil
  show ?case by simp
next
  case (Cons c cs)
  obtain x xs' where s: "splitSlash cs = x # xs'"
    using splitSlash_not_Nil [of cs] by (cases "splitSlash cs") auto
  show ?case using Cons s by simp
qed

lemma splitSlash_plain: "CHR ''/'' \<notin> set e \<Longrightarrow> splitSlash e = [e]"
  by (induction e) auto

lemma splitSlash_joinSlash:
  "es \<noteq> [] \<Longrightarrow> \<forall>e\<in>set es. CHR ''/'' \<notin> set e \<Longrightarrow> splitSlash (joinSlash es) = es"
proof (induction es rule: joinSlash.induct)
  case 1
  then show ?case by simp
next
  case (2 x)
  then show ?case by (simp add: splitSlash_plain)
next
  case (3 x y ys)
  have "splitSlash (x @ CHR ''/'' # joinSlash (y # ys)) = splitSlash x @ splitSlash (joinSlash (y # ys))"
    by (rule splitSlash_append)
  then show ?case using 3 by (simp add: splitSlash_plain)
qed

lemma joinSlash_snoc: "es \<noteq> [] \<Longrightarrow> joinSlash (es @ [e]) = joinSlash es @ CHR ''/'' # e"
  by (induction es rule: joinSlash.induct) auto

lemma cleanElems_clean:
  "clean_elems es \<Longrightarrow> cleanElems True out (es @ rest) = cleanElems True (rev es @ out) rest"
  by (induction es arbitrary: out) (auto simp: clean_elems_def)

lemma cleanElems_rooted_elems:
  "''..'' \<notin> set out \<Longrightarrow> e \<in> set (cleanElems True out es)
   \<Longrightarrow> e \<in> set out \<or> (e \<in> set es \<and> e \<noteq> [] \<and> e \<noteq> ''.'' \<and> e \<noteq> ''..'')"
proof (induction es arbitrary: out)
  case Nil
  then show ?case by simp
next
  case (Cons a es)
  show ?case
  proof (cases "a = [] \<or> a = ''.''")
    case True
    then have "e \<in> set (cleanElems True out es)" using Cons.prems(2) by auto
    from Cons.IH [OF Cons.prems(1) this] show ?thesis by auto
  next
    case False
    show ?thesis
    proof (cases "a = ''..''")
      case dd: True
      show ?thesis
      proof (cases out)
        case Nil
        then have "e \<in> set (cleanElems True out es)" using Cons.prems(2) dd by simp
        from Cons.IH [OF Cons.prems(1) this] show ?thesis by auto
      next
        case (Cons prev below)
        then have p: "prev \<noteq> ''..''" and b: "''..'' \<notin> set below" using Cons.prems(1) by auto
        have "e \<in> set (cleanElems True below es)" using Cons.prems(2) dd Cons p by simp
        from Cons.IH [OF b this] show ?thesis using Cons by auto
      qed
    next
      case nd: False
      have o: "''..'' \<notin> set (a # out)" using Cons.prems(1) nd by auto
      have "e \<in> set (cleanElems True (a # out) es)" using Cons.prems(2) False nd by simp
      from Cons.IH [OF o this] show ?thesis using False nd by auto
    qed
  qed
qed

lemma scope_clean_shape: "\<exists>es. clean_elems es \<and> scope_clean name = CHR ''/'' # joinSlash es"
proof -
  let ?es = "cleanElems True [] (splitSlash (CHR ''/'' # name))"
  have "clean_elems ?es"
    unfolding clean_elems_def
  proof
    fix e assume e: "e \<in> set ?es"
    have "''..'' \<notin> set ([] :: string list)" by simp
    from cleanElems_rooted_elems [OF this e]
    have m: "e \<in> set (splitSlash (CHR ''/'' # name))" and n: "e \<noteq> []" "e \<noteq> ''.''" "e \<noteq> ''..''"
      by auto
    from splitSlash_no_slash [OF m] n
    show "e \<noteq> [] \<and> e \<noteq> ''.'' \<and> e \<noteq> ''..'' \<and> CHR ''/'' \<notin> set e" by simp
  qed
  moreover have "scope_clean name = CHR ''/'' # joinSlash ?es"
    by (simp add: scope_clean_def path_Clean_def path_IsAbs_def)
  ultimately show ?thesis by blast
qed

lemma Index_first: "c \<notin> set a \<Longrightarrow> Index (a @ c # b) c = Some (length a)"
  by (induction a) auto

lemma path_Split_last:
  assumes "CHR ''/'' \<notin> set e"
  shows "path_Split (xs @ CHR ''/'' # e) = (xs @ ''/'', e)"
proof -
  have "Index (rev e @ CHR ''/'' # rev xs) CHR ''/'' = Some (length (rev e))"
    by (rule Index_first) (simp add: assms)
  then have "LastIndexByte (xs @ CHR ''/'' # e) CHR ''/'' = Some (length xs)"
    by (simp add: LastIndexByte_def)
  then show ?thesis by (simp add: path_Split_def)
qed

lemma path_Dir_clean:
  assumes "clean_elems (es @ [e])"
  shows "path_Dir (CHR ''/'' # joinSlash (es @ [e])) = CHR ''/'' # joinSlash es"
proof -
  have e: "CHR ''/'' \<notin> set e" and es: "clean_elems es"
    using assms by (auto simp: clean_elems_def)
  show ?thesis
  proof (cases "es = []")
    case True
    have "path_Split ([] @ CHR ''/'' # e) = ([] @ ''/'', e)" using e by (rule path_Split_last)
    then show ?thesis using True
      by (simp add: path_Dir_def path_Clean_def path_IsAbs_def)
  next
    case False
    have j: "CHR ''/'' # joinSlash (es @ [e]) = (CHR ''/'' # joinSlash es) @ CHR ''/'' # e"
      using False by (simp add: joinSlash_snoc)
    have sp: "path_Split (CHR ''/'' # joinSlash (es @ [e])) = ((CHR ''/'' # joinSlash es) @ ''/'', e)"
      unfolding j using e by (rule path_Split_last)
    have ns: "\<forall>x\<in>set es. CHR ''/'' \<notin> set x" using es by (simp add: clean_elems_def)
    have "splitSlash (joinSlash es @ CHR ''/'' # []) = splitSlash (joinSlash es) @ splitSlash []"
      by (rule splitSlash_append)
    then have s: "splitSlash (joinSlash es @ ''/'') = es @ [[]]"
      using splitSlash_joinSlash [OF False ns] by simp
    have c: "cleanElems True [] (es @ [[]]) = es"
      using cleanElems_clean [OF es, of "[]" "[[]]"] by simp
    show ?thesis
      using sp s c by (simp add: path_Dir_def path_Clean_def path_IsAbs_def)
  qed
qed

lemma resolve_loop_returns:
  "clean_elems es \<Longrightarrow> \<exists>m. resolve_loop scope (CHR ''/'' # joinSlash es) = Some m"
proof (induction es rule: rev_induct)
  case Nil
  show ?case by (subst resolve_loop.simps) (simp split: option.splits)
next
  case (snoc e es)
  have es: "clean_elems es" using snoc.prems by (simp add: clean_elems_def)
  from snoc.IH [OF es] obtain m where m: "resolve_loop scope (CHR ''/'' # joinSlash es) = Some m" ..
  have d: "path_Dir (CHR ''/'' # joinSlash (es @ [e])) = CHR ''/'' # joinSlash es"
    using snoc.prems by (rule path_Dir_clean)
  show ?case
    by (subst resolve_loop.simps) (simp add: d m split: option.splits)
qed

lemma resolve_returns: "\<exists>m. resolve scope name = Some m"
proof -
  obtain es where "clean_elems es" and "scope_clean name = CHR ''/'' # joinSlash es"
    using scope_clean_shape by blast
  then show ?thesis using resolve_loop_returns [of es scope] by (simp add: resolve_def)
qed

text \<open>So every call on a scope returns.\<close>

lemma Scope_calls_return:
  "\<exists>r. Scope_Open scope name = Some r" "\<exists>r. Scope_Stat scope name = Some r"
  "\<exists>r. Scope_Lstat scope name = Some r" "\<exists>r. Scope_Readdir scope name = Some r"
  "\<exists>r. Bind scope root base fs mode = Some r"
proof -
  obtain m where m: "resolve scope name = Some m" using resolve_returns by blast
  obtain m1 where m1: "resolve scope (scope_clean name) = Some m1" using resolve_returns by blast
  obtain m2 where m2: "resolve scope (scope_clean root) = Some m2" using resolve_returns by blast
  show "\<exists>r. Scope_Open scope name = Some r" by (simp add: Scope_Open_def m)
  show "\<exists>r. Scope_Stat scope name = Some r" by (simp add: Scope_Stat_def Scope_stat_def m)
  show "\<exists>r. Scope_Lstat scope name = Some r" by (simp add: Scope_Lstat_def Scope_stat_def m)
  show "\<exists>r. Scope_Readdir scope name = Some r" by (simp add: Scope_Readdir_def Let_def m1)
  show "\<exists>r. Bind scope root base fs mode = Some r"
    by (cases mode) (simp_all add: Bind_def Let_def m2)
qed

section \<open>The size of a zip member\<close>

lemma sint_ucast_32_64: "sint (ucast (w :: 32 word) :: 64 word) = uint w"
proof -
  have b: "uint w < 2 ^ 32" using uint_bounded [of w] by simp
  have nn: "0 \<le> uint w" by simp
  have u: "uint (ucast w :: 64 word) = uint w"
    by (simp add: uint_up_ucast is_up)
  have "sint (ucast w :: 64 word) = signed_take_bit 63 (uint w)"
    using sint_uint [of "ucast w :: 64 word"] u by simp
  also have "\<dots> = uint w"
  proof (rule signed_take_bit_int_eq_self)
    have "- (2 ^ 63) \<le> (0::int)" by simp
    then show "- (2 ^ 63) \<le> uint w" using nn by (rule order_trans)
    have "(2::int) ^ 32 \<le> 2 ^ 63" by simp
    with b show "uint w < 2 ^ 63" by (rule order_less_le_trans)
  qed
  finally show ?thesis .
qed

text \<open>
  Claim C10 (amended). The \<open>Size\<close> of a record that zipfs makes for a member (the records
  of \<open>Stat\<close>, \<open>Lstat\<close> and \<open>Readdir\<close> that carry a header) is the 32-bit field
  \<open>UncompressedSize\<close> of the header, read as a non-negative 64-bit integer: it is below
  \<open>2^32\<close>; where the field holds the low 32 bits of the 64-bit size of the member it is
  that size modulo \<open>2^32\<close>; and for a member of \<open>2^32\<close> bytes or more it differs from the
  size of the member.
\<close>

theorem zip_Size_is_32bit_field:
  assumes "zfi_file fi = Some f"
  shows "sint (Size (zip_FileInfo fi)) = uint (zh_UncompressedSize f) \<and>
         sint (Size (zip_FileInfo fi)) < 2 ^ 32 \<and>
         (zh_UncompressedSize f = ucast (zh_UncompressedSize64 f) \<longrightarrow>
            sint (Size (zip_FileInfo fi)) = uint (zh_UncompressedSize64 f) mod 2 ^ 32) \<and>
         (2 ^ 32 \<le> uint (zh_UncompressedSize64 f) \<longrightarrow>
            sint (Size (zip_FileInfo fi)) \<noteq> uint (zh_UncompressedSize64 f))"
proof -
  have r: "sint (Size (zip_FileInfo fi)) = uint (zh_UncompressedSize f)"
    using assms by (simp add: zip_FileInfo_def zip_Size_def sint_ucast_32_64)
  have b: "uint (zh_UncompressedSize f) < 2 ^ 32"
    using uint_bounded [of "zh_UncompressedSize f"] by simp
  have m: "uint (ucast (zh_UncompressedSize64 f) :: 32 word) = uint (zh_UncompressedSize64 f) mod 2 ^ 32"
    by (simp add: unsigned_ucast_eq take_bit_eq_mod)
  show ?thesis using r b m by auto
qed

theorem zip_Size_is_32bit_field_witness:
  "zh_UncompressedSize big_member = ucast (zh_UncompressedSize64 big_member) \<and>
   (2::int) ^ 32 \<le> uint (zh_UncompressedSize64 big_member) \<and>
   sint (Size (zip_FileInfo \<lparr>zfi_name = ''big'', zfi_file = Some big_member\<rparr>)) = 5 \<and>
   uint (zh_UncompressedSize64 big_member) mod 2 ^ 32 = 5 \<and>
   sint (Size (zip_FileInfo \<lparr>zfi_name = ''big'', zfi_file = Some big_member\<rparr>))
     \<noteq> uint (zh_UncompressedSize64 big_member)"
  using zip_Size_is_32bit_field [of "\<lparr>zfi_name = ''big'', zfi_file = Some big_member\<rparr>" big_member]
  by (simp add: big_member_def)

text \<open>The size is not in every case the size of the member modulo \<open>2^32\<close>: for the zip64
  header of a member of 4 GiB and 5 bytes it is \<open>2^32 - 1\<close>, the content of the field.\<close>

theorem zip_Size_zip64_counterexample:
  "sint (Size (zip_FileInfo \<lparr>zfi_name = ''big'', zfi_file = Some zip64_member\<rparr>)) = 4294967295 \<and>
   uint (zh_UncompressedSize64 zip64_member) mod 2 ^ 32 = 5"
  by (simp add: zip64_member_def zip_FileInfo_def zip_Size_def)

section \<open>Rewinding a member stream\<close>

text \<open>
  Claim C2. On the archive and the opener of the zipfs test, \<open>Open("/foo")\<close> succeeds and
  the three rounds of \<open>TestOpenSeek\<close> (read the stream to its end, seek to offset 0) read
  \<open>foo\<close>, then nothing, then nothing: \<open>Seek\<close> closes the decode cursor of the stream and
  assigns the new source to its own copy of the stream.
\<close>

theorem zipfs_rewind_reads_nothing:
  "(case zipfs_open ''test.zip'' (archive_opener True test_zip) [] of
      (Inr fs, h) \<Rightarrow>
        (case zipfs_Open fs ''/foo'' h of
           (Inr f, h1) \<Rightarrow> read_and_rewind 3 f h1 = [Inr ''foo'', Inr [], Inr []]
         | (Inl e, h1) \<Rightarrow> False)
    | (Inl e, h) \<Rightarrow> False)"
  by code_simp

section \<open>Errors of a chain of binds\<close>

text \<open>
  When every bind of a chain fails, the loop of \<open>Open\<close> returns the first error that is
  not "not exist", and the last error when all are "not exist"; the loop of \<open>stat\<close>
  returns the first error, whatever it is.
\<close>

lemma Scope_Open_loop_all_fail:
  assumes "\<forall>m\<in>set ms. \<exists>t e. translate m name = Inr t \<and> fs_Open (mount_fs m) t = Inl e"
  shows "Scope_Open_loop name err ms =
           Inl (case preferred_error err (failures (map (bind_call fs_Open name) ms)) of
                  None \<Rightarrow> PathError ''open'' name ErrNotExist | Some e \<Rightarrow> e)"
  using assms
proof (induction ms arbitrary: err)
  case Nil
  then show ?case by (simp split: option.splits)
next
  case (Cons m ms)
  from Cons.prems obtain t e where t: "translate m name = Inr t" "fs_Open (mount_fs m) t = Inl e"
    by auto
  have b: "bind_call fs_Open name m = Inl e" by (simp add: bind_call_def t)
  have r: "\<forall>m\<in>set ms. \<exists>t e. translate m name = Inr t \<and> fs_Open (mount_fs m) t = Inl e"
    using Cons.prems by simp
  show ?case
  proof (cases err)
    case None
    then show ?thesis using Cons.IH [OF r, of "Some e"] by (simp add: t b)
  next
    case (Some e0)
    show ?thesis
    proof (cases "IsNotExist e0")
      case True
      then show ?thesis using Cons.IH [OF r, of "Some e"] Some by (simp add: t b)
    next
      case False
      have stick: "preferred_error (Some e0) es = Some e0" for es
        using False by (induction es) auto
      show ?thesis using Cons.IH [OF r, of "Some e0"] Some False by (simp add: t b stick)
    qed
  qed
qed

lemma preferred_error_find:
  "preferred_error None es =
     (case find (\<lambda>e. \<not> IsNotExist e) es of
        Some e \<Rightarrow> Some e
      | None \<Rightarrow> if es = [] then None else Some (last es))"
proof -
  have stick: "\<not> IsNotExist e0 \<Longrightarrow> preferred_error (Some e0) es = Some e0" for e0 es
    by (induction es) auto
  have g: "IsNotExist e0 \<Longrightarrow> preferred_error (Some e0) es =
     (case find (\<lambda>e. \<not> IsNotExist e) es of
        Some e \<Rightarrow> Some e
      | None \<Rightarrow> Some (last (e0 # es)))" for e0 es
  proof (induction es arbitrary: e0)
    case Nil
    then show ?case by simp
  next
    case (Cons a es)
    show ?case
    proof (cases "IsNotExist a")
      case True
      then show ?thesis using Cons.IH [OF True] Cons.prems by (simp split: option.splits)
    next
      case False
      then show ?thesis using Cons.prems stick [OF False] by simp
    qed
  qed
  show ?thesis
  proof (cases es)
    case Nil
    then show ?thesis by simp
  next
    case (Cons a as)
    show ?thesis
    proof (cases "IsNotExist a")
      case True
      then show ?thesis using g [OF True, of as] by (simp add: Cons split: option.splits)
    next
      case False
      then show ?thesis using stick [OF False, of as] by (simp add: Cons)
    qed
  qed
qed

lemma Scope_stat_loop_all_fail:
  assumes "\<forall>m\<in>set ms. \<exists>t e. translate m name = Inr t \<and> f (mount_fs m) t = Inl e"
  shows "Scope_stat_loop f name err ms =
           Inl (case err of
                  Some e \<Rightarrow> e
                | None \<Rightarrow> (case failures (map (bind_call f name) ms) of
                             [] \<Rightarrow> PathError ''stat'' name ErrNotExist | e # es \<Rightarrow> e))"
  using assms
proof (induction ms arbitrary: err)
  case Nil
  then show ?case by (simp split: option.splits)
next
  case (Cons m ms)
  from Cons.prems obtain t e where t: "translate m name = Inr t" "f (mount_fs m) t = Inl e"
    by auto
  have b: "bind_call f name m = Inl e" by (simp add: bind_call_def t)
  have r: "\<forall>m\<in>set ms. \<exists>t e. translate m name = Inr t \<and> f (mount_fs m) t = Inl e"
    using Cons.prems by simp
  show ?case
    using Cons.IH [OF r] by (cases err) (simp_all add: t b)
qed

text \<open>
  Claim C3. In a scope whose two binds at \<open>/\<close> fail, the first with "not exist" and the
  second with a permission error, \<open>Stat\<close> and \<open>Lstat\<close> return "not exist", the error of
  the first bind; \<open>Open\<close> returns the permission error.
\<close>

theorem Scope_stat_returns_first_error:
  "(case scope_notexist_then_permission of
      Some (Inr s) \<Rightarrow>
        Scope_Stat s ''/x'' = Some (Inl ErrNotExist) \<and>
        Scope_Lstat s ''/x'' = Some (Inl ErrNotExist) \<and>
        Scope_Open s ''/x'' = Some (Inl ErrPermission)
    | _ \<Rightarrow> False)"
  by code_simp

section \<open>The binds filed under a key\<close>

text \<open>The loop of \<open>Bind\<close> over the binds changes none of them: when it does not panic,
  the slice after the loop is the slice before it.\<close>

lemma Bind_extend_keeps_mounts: "Bind_extend root mounts = Inr mounts' \<Longrightarrow> mounts' = mounts"
proof (induction mounts arbitrary: mounts')
  case Nil
  then show ?case by simp
next
  case (Cons mount mounts)
  from Cons.prems obtain rest where r: "Bind_extend root mounts = Inr rest" and m: "mounts' = mount # rest"
    by (cases "Bind_extend root mounts") (auto simp: Let_def split: if_splits)
  from Cons.IH [OF r] m show ?case by simp
qed

text \<open>
  Claim C4. After \<open>NewScope()\<close> and \<open>Bind("/a", "/x", fs, BindAfter)\<close> the key \<open>/a\<close> holds
  two binds, and the one inherited from \<open>/\<close> still has root \<open>/\<close> and base \<open>/\<close>.
\<close>

theorem Bind_keeps_inherited_root:
  "(case scope_bind_below of
      Some (Inr s) \<Rightarrow>
        map_option (map (\<lambda>m. (mount_root m, mount_base m))) (map_of s ''/a'')
          = Some [(''/'', ''/''), (''/a'', ''/x'')]
    | _ \<Rightarrow> False)"
  by code_simp

section \<open>Opening a member\<close>

text \<open>
  Claim C5. \<open>Open("/bar/baz")\<close> on a rar archive that holds \<open>baz\<close> and \<open>bar/baz\<close> returns a
  stream named \<open>baz\<close> that reads the bytes of \<open>baz\<close>; on a rar archive that holds \<open>foo\<close>
  and \<open>bar/baz\<close> it fails with \<open>io.EOF\<close>; \<open>Open("/foo")\<close> on a tar archive that holds
  \<open>foo\<close> fails with \<open>io.EOF\<close>; \<open>Open("/bar/baz")\<close> on the zip archive of the test returns
  the stream of \<open>bar/baz\<close>.
\<close>

theorem Open_compares_local_name:
  "(case rarfs_open ''test.rar''
           (archive_opener True [rar_member ''baz'' ''top'', rar_member ''bar/baz'' ''nested'']) [] of
      (Inr fs, h) \<Rightarrow>
        (case rarfs_Open fs ''/bar/baz'' h of
           (Inr f, h1) \<Rightarrow> rsc_name f = ''baz'' \<and> fst (ReadAll (rsc_Reader f) h1) = Inr ''top''
         | (Inl e, h1) \<Rightarrow> False)
    | (Inl e, h) \<Rightarrow> False) \<and>
   (case rarfs_open ''test.rar'' (archive_opener True test_rar) [] of
      (Inr fs, h) \<Rightarrow>
        (case rarfs_Open fs ''/bar/baz'' h of
           (Inr f, h1) \<Rightarrow> False
         | (Inl e, h1) \<Rightarrow> e = EOF)
    | (Inl e, h) \<Rightarrow> False) \<and>
   (case tarfs_open ''test.tar'' (archive_opener True test_tar) [] of
      (Inr fs, h) \<Rightarrow>
        (case tarfs_Open fs ''/foo'' h of
           (Inr f, h1) \<Rightarrow> False
         | (Inl e, h1) \<Rightarrow> e = EOF)
    | (Inl e, h) \<Rightarrow> False) \<and>
   (case zipfs_open ''test.zip'' (archive_opener True test_zip) [] of
      (Inr fs, h) \<Rightarrow>
        (case zipfs_Open fs ''/bar/baz'' h of
           (Inr f, h1) \<Rightarrow>
             rsc_name f = ''bar/baz'' \<and> fst (ReadAll (rsc_Reader f) h1) = Inr ''baz''
         | (Inl e, h1) \<Rightarrow> False)
    | (Inl e, h) \<Rightarrow> False)"
  by code_simp

section \<open>The order of a listing\<close>

text \<open>
  Claim C7. The root listing of a zip archive that holds \<open>foo/bar\<close> and \<open>foo.txt\<close> is
  \<open>foo.txt\<close>, \<open>foo\<close>, which is not ascending; the root listing of one that holds \<open>a\<close>,
  \<open>a-b\<close> and \<open>a/c\<close> names \<open>a\<close> twice.
\<close>

theorem zipfs_Readdir_not_sorted:
  "(case zipfs_Readdir
           (zipfs_list (map fst [zip_member ''foo/bar'' ''x'', zip_member ''foo.txt'' ''y''])) ''/'' of
      Inr infos \<Rightarrow> map Name infos = [''foo.txt'', ''foo''] \<and> \<not> sorted (map Name infos)
    | Inl e \<Rightarrow> False) \<and>
   (case zipfs_Readdir
           (zipfs_list (map fst [zip_member ''a'' ''x'', zip_member ''a-b'' ''y'',
                                 zip_member ''a/c'' ''z''])) ''/'' of
      Inr infos \<Rightarrow> map Name infos = [''a'', ''a-b'', ''a''] \<and> \<not> distinct (map Name infos)
    | Inl e \<Rightarrow> False)"
  by code_simp

text \<open>The listing of a scope is in order and names no entry twice.\<close>

lemma Readdir_add_invariant:
  "listing_invariant v \<Longrightarrow> listing_invariant (Readdir_add useFiles dir v)"
proof (induction dir arbitrary: v)
  case Nil
  then show ?case by simp
next
  case (Cons d dir)
  define v1 where "v1 = v\<lparr>rv_haveName := insert (Name d) (rv_haveName v), rv_all := rv_all v @ [d]\<rparr>"
  have "listing_invariant v1" if "Name d \<notin> rv_haveName v"
    using Cons.prems that by (auto simp: listing_invariant_def v1_def)
  then show ?case using Cons.IH Cons.prems by (auto simp: v1_def)
qed

lemma Readdir_first_invariant:
  "listing_invariant v \<Longrightarrow> listing_invariant (Readdir_first ds v)"
proof (induction ds arbitrary: v)
  case Nil
  then show ?case by simp
next
  case (Cons d ds)
  define v1 where "v1 = v\<lparr>rv_haveName := insert (Name d) (rv_haveName v), rv_all := rv_all v @ [d]\<rparr>"
  have "listing_invariant v1" if "Name d \<notin> rv_haveName v"
    using Cons.prems that by (auto simp: listing_invariant_def v1_def)
  then show ?case using Cons.IH Cons.prems by (auto simp: v1_def)
qed

lemma Readdir_reach_invariant:
  "listing_invariant v \<Longrightarrow> listing_invariant (Readdir_reach name keys v)"
proof (induction keys arbitrary: v)
  case Nil
  then show ?case by simp
next
  case (Cons old keys)
  define elem where "elem = reach_elem name old"
  define v1 where "v1 = v\<lparr>rv_haveName := insert elem (rv_haveName v), rv_all := rv_all v @ [vfs_dirInfo elem]\<rparr>"
  have step: "Readdir_reach name (old # keys) v =
      (if hasPathPrefix old name \<and> old \<noteq> name \<and> elem \<notin> rv_haveName v
       then Readdir_reach name keys v1 else Readdir_reach name keys v)"
    by (simp add: elem_def v1_def reach_elem_def Let_def)
  have "listing_invariant v1" if "elem \<notin> rv_haveName v"
    using Cons.prems that by (auto simp: listing_invariant_def v1_def vfs_dirInfo_def)
  then show ?case unfolding step using Cons.IH Cons.prems by auto
qed

lemma Readdir_mounts_invariant:
  "listing_invariant v \<Longrightarrow> Readdir_mounts name mounts v = Inr v' \<Longrightarrow> listing_invariant v'"
proof (induction mounts arbitrary: v)
  case Nil
  then show ?case by simp
next
  case (Cons m mounts)
  from Cons.prems(2) obtain t where t: "translate m name = Inr t"
    by (cases "translate m name") auto
  show ?case
  proof (cases "fs_Readdir (mount_fs m) t")
    case (Inl err1)
    define v1 where "v1 = (if rv_err v = None then v\<lparr>rv_err := Some err1\<rparr> else v)"
    have i: "listing_invariant v1" using Cons.prems(1) by (simp add: v1_def listing_invariant_def)
    have step: "Readdir_mounts name (m # mounts) v = Readdir_mounts name mounts v1"
      by (simp add: t Inl v1_def)
    have "Readdir_mounts name mounts v1 = Inr v'" using Cons.prems(2) unfolding step .
    with i show ?thesis by (rule Cons.IH)
  next
    case (Inr dir)
    define v1 where "v1 = (if rv_first v = None then v\<lparr>rv_first := Some dir\<rparr> else v)"
    define useFiles where "useFiles = (\<not> rv_haveGo v1 \<and> (\<exists>d\<in>set dir. HasSuffix (Name d) ''.go''))"
    define v2 where "v2 = (if useFiles then v1\<lparr>rv_haveGo := True\<rparr> else v1)"
    have "listing_invariant v2" using Cons.prems(1) by (simp add: v2_def v1_def listing_invariant_def)
    then have i: "listing_invariant (Readdir_add useFiles dir v2)" by (rule Readdir_add_invariant)
    have step: "Readdir_mounts name (m # mounts) v
        = Readdir_mounts name mounts (Readdir_add useFiles dir v2)"
      by (simp add: t Inr v1_def v2_def useFiles_def Let_def)
    have "Readdir_mounts name mounts (Readdir_add useFiles dir v2) = Inr v'"
      using Cons.prems(2) unfolding step .
    with i show ?thesis by (rule Cons.IH)
  qed
qed

lemma Scope_Readdir_sorted_distinct:
  assumes "Scope_Readdir scope name = Some (Inr infos)"
  shows "sorted (map Name infos) \<and> distinct (map Name infos)"
proof -
  define nm where "nm = scope_clean name"
  define v0 where "v0 = \<lparr>rv_haveGo = False, rv_haveName = {}, rv_all = [], rv_err = None, rv_first = None\<rparr>"
  from assms obtain mounts where res: "resolve scope nm = Some mounts"
    by (auto simp: Scope_Readdir_def Let_def nm_def split: option.splits)
  from assms res obtain v where v: "Readdir_mounts nm mounts v0 = Inr v"
    by (cases "Readdir_mounts nm mounts v0")
       (auto simp: Scope_Readdir_def Let_def nm_def [symmetric] v0_def [symmetric])
  define v1 where "v1 = (if \<not> rv_haveGo v
                            then Readdir_first (case rv_first v of None \<Rightarrow> [] | Some ds \<Rightarrow> ds) v
                            else v)"
  define v2 where "v2 = Readdir_reach nm (map fst scope) v1"
  have "listing_invariant v0" by (simp add: v0_def listing_invariant_def)
  then have "listing_invariant v" using v by (rule Readdir_mounts_invariant)
  then have "listing_invariant v1" by (simp add: v1_def Readdir_first_invariant)
  then have "listing_invariant v2" unfolding v2_def by (rule Readdir_reach_invariant)
  then have d: "distinct (map Name (rv_all v2))" by (simp add: listing_invariant_def)
  have r: "infos = (if rv_all v2 = [] then [] else sort_key Name (rv_all v2))"
    using assms res v
    by (auto simp: Scope_Readdir_def Let_def nm_def [symmetric] v0_def [symmetric]
          v1_def v2_def split: option.splits if_splits)
  have "distinct (map Name (sort_key Name (rv_all v2)))"
    using d by (simp add: distinct_map)
  then show ?thesis by (simp add: r)
qed

section \<open>Looking a path up in the table\<close>

















text \<open>
  In tarfs the second test of \<open>lookup\<close> reads row \<open>i\<close> of the shortened table where
  zipfs and rarfs read row \<open>j\<close>. So an inferred directory is found only when the row at
  twice the index of the first search starts with \<open>d/\<close>: with the entries \<open>a\<close> and \<open>b/c\<close>,
  \<open>stat\<close> of \<open>/b\<close> panics; with \<open>a\<close>, \<open>b/c\<close> and \<open>d\<close> it answers "not exist"; in the archive
  of the test, \<open>/a\<close> and \<open>/a/b\<close> are found (the first search gives 0) and \<open>/bar\<close> is not.
\<close>

lemma tarfs_lookup_index_slip:
  "tarfs_stat (map fst [tar_member ''a'' ''x'', tar_member ''b/c'' ''y'']) ''/b''
     = Inl (Panic ''index out of range'') \<and>
   tarfs_stat (map fst [tar_member ''a'' ''x'', tar_member ''b/c'' ''y'', tar_member ''d'' ''z'']) ''/b''
     = Inl (PathError [] ''/b'' ErrNotExist) \<and>
   tarfs_stat (map fst [tar_member ''a/b/c'' ''c'', tar_member ''bar/baz'' ''baz'',
                        tar_member ''foo'' ''foo'']) ''/a''
     = Inr (0, \<lparr>tfi_name = ''/a'', tfi_file = None\<rparr>) \<and>
   tarfs_stat (map fst [tar_member ''a/b/c'' ''c'', tar_member ''bar/baz'' ''baz'',
                        tar_member ''foo'' ''foo'']) ''/a/b''
     = Inr (0, \<lparr>tfi_name = ''/b'', tfi_file = None\<rparr>)"
  by code_simp

section \<open>The union of the listings of a scope\<close>

lemma dedup_seen_append:
  "dedup_seen S (xs @ ys) = dedup_seen S xs @ dedup_seen (S \<union> Name ` set xs) ys"
  by (induction xs arbitrary: S) (auto simp: insert_absorb)

lemma Readdir_add_False:
  "rv_all (Readdir_add False dir v) = rv_all v @ dedup_seen (rv_haveName v) (filter IsDir dir) \<and>
   rv_haveName (Readdir_add False dir v) = rv_haveName v \<union> Name ` set (filter IsDir dir) \<and>
   rv_haveGo (Readdir_add False dir v) = rv_haveGo v \<and>
   rv_err (Readdir_add False dir v) = rv_err v \<and>
   rv_first (Readdir_add False dir v) = rv_first v"
  by (induction dir arbitrary: v) (auto simp: insert_absorb)

lemma Readdir_first_all:
  "rv_all (Readdir_first ds v) = rv_all v @ dedup_seen (rv_haveName v) ds \<and>
   rv_haveName (Readdir_first ds v) = rv_haveName v \<union> Name ` set ds \<and>
   rv_err (Readdir_first ds v) = rv_err v"
  by (induction ds arbitrary: v) (auto simp: insert_absorb)

lemma Readdir_reach_all:
  "rv_all (Readdir_reach name keys v)
     = rv_all v @ dedup_seen (rv_haveName v) (map vfs_dirInfo (reach_elems name keys)) \<and>
   rv_err (Readdir_reach name keys v) = rv_err v"
proof (induction keys arbitrary: v)
  case Nil
  then show ?case by (simp add: reach_elems_def)
next
  case (Cons old keys)
  have tail: "reach_elems name (old # keys) =
      (if hasPathPrefix old name \<and> old \<noteq> name then reach_elem name old # reach_elems name keys
       else reach_elems name keys)"
    by (simp add: reach_elems_def)
  show ?case
    by (simp add: tail Cons.IH Let_def reach_elem_def vfs_dirInfo_def)
qed

lemma Readdir_mounts_no_go:
  assumes "\<forall>m\<in>set mounts. \<exists>t. translate m name = Inr t"
    and "\<forall>dir\<in>set (successes (map (bind_listing name) mounts)). \<forall>d\<in>set dir. \<not> HasSuffix (Name d) ''.go''"
  shows "\<exists>v'. Readdir_mounts name mounts v = Inr v' \<and>
           rv_all v' = rv_all v @ dedup_seen (rv_haveName v)
                         (concat (map (filter IsDir) (successes (map (bind_listing name) mounts)))) \<and>
           rv_haveName v' = rv_haveName v \<union>
                         Name ` set (concat (map (filter IsDir) (successes (map (bind_listing name) mounts)))) \<and>
           rv_haveGo v' = rv_haveGo v \<and>
           rv_err v' = (case rv_err v of Some e \<Rightarrow> Some e
                        | None \<Rightarrow> first_error (map (bind_listing name) mounts)) \<and>
           rv_first v' = (case rv_first v of Some f \<Rightarrow> Some f
                          | None \<Rightarrow> (case successes (map (bind_listing name) mounts) of
                                       [] \<Rightarrow> None | d # ds \<Rightarrow> Some d))"
  using assms
proof (induction mounts arbitrary: v)
  case Nil
  then show ?case by (simp split: option.splits)
next
  case (Cons m mounts)
  from Cons.prems(1) obtain t where t: "translate m name = Inr t" by auto
  have tr: "\<forall>m\<in>set mounts. \<exists>t. translate m name = Inr t" using Cons.prems(1) by simp
  show ?case
  proof (cases "fs_Readdir (mount_fs m) t")
    case (Inl err1)
    have bl: "bind_listing name m = Inl err1" by (simp add: bind_listing_def t Inl)
    have ng: "\<forall>dir\<in>set (successes (map (bind_listing name) mounts)). \<forall>d\<in>set dir. \<not> HasSuffix (Name d) ''.go''"
      using Cons.prems(2) bl by simp
    define v1 where "v1 = (if rv_err v = None then v\<lparr>rv_err := Some err1\<rparr> else v)"
    have step: "Readdir_mounts name (m # mounts) v = Readdir_mounts name mounts v1"
      by (simp add: t Inl v1_def)
    from Cons.IH [OF tr ng, of v1] obtain v' where
      r: "Readdir_mounts name mounts v1 = Inr v'"
         "rv_all v' = rv_all v1 @ dedup_seen (rv_haveName v1)
                         (concat (map (filter IsDir) (successes (map (bind_listing name) mounts))))"
         "rv_haveName v' = rv_haveName v1 \<union>
                         Name ` set (concat (map (filter IsDir) (successes (map (bind_listing name) mounts))))"
         "rv_haveGo v' = rv_haveGo v1"
         "rv_err v' = (case rv_err v1 of Some e \<Rightarrow> Some e
                        | None \<Rightarrow> first_error (map (bind_listing name) mounts))"
         "rv_first v' = (case rv_first v1 of Some f \<Rightarrow> Some f
                          | None \<Rightarrow> (case successes (map (bind_listing name) mounts) of
                                       [] \<Rightarrow> None | d # ds \<Rightarrow> Some d))"
      by blast
    have v1: "rv_all v1 = rv_all v" "rv_haveName v1 = rv_haveName v" "rv_haveGo v1 = rv_haveGo v"
      "rv_first v1 = rv_first v" "rv_err v1 = (case rv_err v of Some e \<Rightarrow> Some e | None \<Rightarrow> Some err1)"
      by (auto simp: v1_def split: option.splits)
    show ?thesis
      using r step by (simp add: v1 bl split: option.splits)
  next
    case (Inr dir)
    have bl: "bind_listing name m = Inr dir" by (simp add: bind_listing_def t Inr)
    have ng: "\<forall>dir\<in>set (successes (map (bind_listing name) mounts)). \<forall>d\<in>set dir. \<not> HasSuffix (Name d) ''.go''"
      and nodir: "\<forall>d\<in>set dir. \<not> HasSuffix (Name d) ''.go''"
      using Cons.prems(2) bl by simp_all
    define v0 where "v0 = (if rv_first v = None then v\<lparr>rv_first := Some dir\<rparr> else v)"
    define v1 where "v1 = Readdir_add False dir v0"
    have step: "Readdir_mounts name (m # mounts) v = Readdir_mounts name mounts v1"
      using nodir by (simp add: t Inr v1_def v0_def Let_def)
    from Cons.IH [OF tr ng, of v1] obtain v' where
      r: "Readdir_mounts name mounts v1 = Inr v'"
         "rv_all v' = rv_all v1 @ dedup_seen (rv_haveName v1)
                         (concat (map (filter IsDir) (successes (map (bind_listing name) mounts))))"
         "rv_haveName v' = rv_haveName v1 \<union>
                         Name ` set (concat (map (filter IsDir) (successes (map (bind_listing name) mounts))))"
         "rv_haveGo v' = rv_haveGo v1"
         "rv_err v' = (case rv_err v1 of Some e \<Rightarrow> Some e
                        | None \<Rightarrow> first_error (map (bind_listing name) mounts))"
         "rv_first v' = (case rv_first v1 of Some f \<Rightarrow> Some f
                          | None \<Rightarrow> (case successes (map (bind_listing name) mounts) of
                                       [] \<Rightarrow> None | d # ds \<Rightarrow> Some d))"
      by blast
    have v0: "rv_all v0 = rv_all v" "rv_haveName v0 = rv_haveName v" "rv_haveGo v0 = rv_haveGo v"
      "rv_err v0 = rv_err v" "rv_first v0 = (case rv_first v of Some f \<Rightarrow> Some f | None \<Rightarrow> Some dir)"
      by (auto simp: v0_def split: option.splits)
    have v1: "rv_all v1 = rv_all v @ dedup_seen (rv_haveName v) (filter IsDir dir)"
      "rv_haveName v1 = rv_haveName v \<union> Name ` set (filter IsDir dir)"
      "rv_haveGo v1 = rv_haveGo v" "rv_err v1 = rv_err v"
      "rv_first v1 = (case rv_first v of Some f \<Rightarrow> Some f | None \<Rightarrow> Some dir)"
      using Readdir_add_False [of dir v0] by (simp_all add: v1_def v0)
    have "rv_all v' = rv_all v @ dedup_seen (rv_haveName v)
                         (concat (map (filter IsDir) (successes (map (bind_listing name) (m # mounts)))))"
      using r(2) by (simp add: v1 bl dedup_seen_append)
    moreover have "rv_haveName v' = rv_haveName v \<union>
          Name ` set (concat (map (filter IsDir) (successes (map (bind_listing name) (m # mounts)))))"
      using r(3) by (simp add: v1 bl Un_assoc image_Un)
    moreover have "rv_haveGo v' = rv_haveGo v" using r(4) by (simp add: v1)
    moreover have "rv_err v' = (case rv_err v of Some e \<Rightarrow> Some e
                        | None \<Rightarrow> first_error (map (bind_listing name) (m # mounts)))"
      using r(5) by (simp add: v1 bl split: option.splits)
    moreover have "rv_first v' = (case rv_first v of Some f \<Rightarrow> Some f
                          | None \<Rightarrow> (case successes (map (bind_listing name) (m # mounts)) of
                                       [] \<Rightarrow> None | d # ds \<Rightarrow> Some d))"
      using r(6) by (simp add: v1 bl split: option.splits)
    ultimately show ?thesis using r(1) step by simp
  qed
qed

text \<open>
  Claim C6 (amended). \<open>resolve\<close> returns a chain of binds for every directory. When
  the binds of the chain translate the path and no listing of a bind has an entry whose
  name ends in \<open>.go\<close>, \<open>Readdir\<close> returns, sorted by name: the directory entries of every bind that listed
  successfully, then all entries of the first bind that listed successfully, then a
  directory for every mount key strictly below the directory, where of the records with
  one name the first is kept. When there is no such record it returns the first error
  of a listing, or the empty listing when no listing failed.
\<close>

theorem Scope_Readdir_union_without_go:
  "\<exists>mounts. resolve scope (scope_clean name) = Some mounts \<and>
     ((\<forall>m\<in>set mounts. \<exists>t. translate m (scope_clean name) = Inr t) \<and>
      (\<forall>dir\<in>set (successes (map (bind_listing (scope_clean name)) mounts)).
         \<forall>d\<in>set dir. \<not> HasSuffix (Name d) ''.go'') \<longrightarrow>
      Scope_Readdir scope name =
        Some (if merged_union (successes (map (bind_listing (scope_clean name)) mounts))
                   (reach_elems (scope_clean name) (map fst scope)) = []
              then (case first_error (map (bind_listing (scope_clean name)) mounts) of
                      None \<Rightarrow> Inr [] | Some e \<Rightarrow> Inl e)
              else Inr (sort_key Name
                     (merged_union (successes (map (bind_listing (scope_clean name)) mounts))
                        (reach_elems (scope_clean name) (map fst scope))))))"
proof -
  obtain mounts where res: "resolve scope (scope_clean name) = Some mounts"
    using resolve_returns by blast
  have "Scope_Readdir scope name =
        Some (if merged_union (successes (map (bind_listing (scope_clean name)) mounts))
                   (reach_elems (scope_clean name) (map fst scope)) = []
              then (case first_error (map (bind_listing (scope_clean name)) mounts) of
                      None \<Rightarrow> Inr [] | Some e \<Rightarrow> Inl e)
              else Inr (sort_key Name
                     (merged_union (successes (map (bind_listing (scope_clean name)) mounts))
                        (reach_elems (scope_clean name) (map fst scope)))))"
    if tr: "\<forall>m\<in>set mounts. \<exists>t. translate m (scope_clean name) = Inr t"
      and nogo: "\<forall>dir\<in>set (successes (map (bind_listing (scope_clean name)) mounts)).
                 \<forall>d\<in>set dir. \<not> HasSuffix (Name d) ''.go''"
  proof -
  define nm where "nm = scope_clean name"
  define dirs where "dirs = successes (map (bind_listing nm) mounts)"
  define v0 where "v0 = \<lparr>rv_haveGo = False, rv_haveName = {}, rv_all = [], rv_err = None, rv_first = None\<rparr>"
  from Readdir_mounts_no_go [OF tr nogo, of v0] obtain v where
    v: "Readdir_mounts nm mounts v0 = Inr v"
       "rv_all v = dedup_seen {} (concat (map (filter IsDir) dirs))"
       "rv_haveName v = Name ` set (concat (map (filter IsDir) dirs))"
       "rv_haveGo v = False"
       "rv_err v = first_error (map (bind_listing nm) mounts)"
       "rv_first v = (case dirs of [] \<Rightarrow> None | d # ds \<Rightarrow> Some d)"
    unfolding nm_def [symmetric] dirs_def [symmetric] by (auto simp: v0_def)
  define fl where "fl = (case dirs of [] \<Rightarrow> [] | d # ds \<Rightarrow> d)"
  have fl: "(case rv_first v of None \<Rightarrow> [] | Some ds \<Rightarrow> ds) = fl"
    by (simp add: v(6) fl_def split: list.splits)
  define v1 where "v1 = Readdir_first fl v"
  define v2 where "v2 = Readdir_reach nm (map fst scope) v1"
  have a1: "rv_all v1 = dedup_seen {} (concat (map (filter IsDir) dirs) @ fl)"
    and h1: "rv_haveName v1 = Name ` set (concat (map (filter IsDir) dirs)) \<union> Name ` set fl"
    and e1: "rv_err v1 = rv_err v"
    using Readdir_first_all [of fl v] by (simp_all add: v1_def v dedup_seen_append)
  have a2: "rv_all v2 = merged_union dirs (reach_elems nm (map fst scope))"
    and e2: "rv_err v2 = first_error (map (bind_listing nm) mounts)"
    using Readdir_reach_all [of nm "map fst scope" v1]
    by (simp_all add: v2_def a1 h1 e1 v(5) merged_union_def fl_def [symmetric] dedup_seen_append image_Un)
  have "Scope_Readdir scope name =
          Some (if rv_all v2 = [] then (case rv_err v2 of None \<Rightarrow> Inr [] | Some e \<Rightarrow> Inl e)
                else Inr (sort_key Name (rv_all v2)))"
    using res v(1) v(4) fl
    by (simp add: Scope_Readdir_def Let_def nm_def [symmetric] v0_def [symmetric]
          v2_def v1_def)
  then show ?thesis
    by (simp add: a2 e2 nm_def dirs_def)
  qed
  with res show ?thesis by blast
qed

theorem Scope_Readdir_union_without_go_witness:
  "Scope_Readdir two_listings_scope ''/''
     = Some (Inr [vfs_dirInfo ''d'', vfs_dirInfo ''e'', file_rec ''f''])"
proof -
  have cl: "scope_clean ''/'' = ''/''" by code_simp
  have res: "resolve two_listings_scope (scope_clean ''/'') = Some two_listings_mounts"
    unfolding resolve_def cl
    by (subst resolve_loop.simps) (simp add: two_listings_scope_def)
  have tr: "\<forall>m\<in>set two_listings_mounts. \<exists>t. translate m (scope_clean ''/'') = Inr t"
  proof -
    have "hasPathPrefix (path_Clean (''/'' @ ''/'')) ''/''" by code_simp
    then show ?thesis by (simp add: two_listings_mounts_def translate_def cl Let_def)
  qed
  have dirs: "successes (map (bind_listing (scope_clean ''/'')) two_listings_mounts)
     = [[vfs_dirInfo ''d'', file_rec ''f''],
        [vfs_dirInfo ''e'', file_rec ''g'', vfs_dirInfo ''d'']]"
    by code_simp
  have nogo: "\<forall>dir\<in>set (successes (map (bind_listing (scope_clean ''/'')) two_listings_mounts)).
                 \<forall>d\<in>set dir. \<not> HasSuffix (Name d) ''.go''"
    unfolding dirs by code_simp
  have m: "merged_union [[vfs_dirInfo ''d'', file_rec ''f''],
        [vfs_dirInfo ''e'', file_rec ''g'', vfs_dirInfo ''d'']]
        (reach_elems (scope_clean ''/'') (map fst two_listings_scope))
       = [vfs_dirInfo ''d'', vfs_dirInfo ''e'', file_rec ''f'']"
    by code_simp
  have srt: "sort_key Name [vfs_dirInfo ''d'', vfs_dirInfo ''e'', file_rec ''f'']
       = [vfs_dirInfo ''d'', vfs_dirInfo ''e'', file_rec ''f'']"
    by code_simp
  from Scope_Readdir_union_without_go [of two_listings_scope "''/''"]
  obtain mounts where r: "resolve two_listings_scope (scope_clean ''/'') = Some mounts"
    and c: "(\<forall>m\<in>set mounts. \<exists>t. translate m (scope_clean ''/'') = Inr t) \<and>
      (\<forall>dir\<in>set (successes (map (bind_listing (scope_clean ''/'')) mounts)).
         \<forall>d\<in>set dir. \<not> HasSuffix (Name d) ''.go'') \<longrightarrow>
      Scope_Readdir two_listings_scope ''/'' =
        Some (if merged_union (successes (map (bind_listing (scope_clean ''/'')) mounts))
                   (reach_elems (scope_clean ''/'') (map fst two_listings_scope)) = []
              then (case first_error (map (bind_listing (scope_clean ''/'')) mounts) of
                      None \<Rightarrow> Inr [] | Some e \<Rightarrow> Inl e)
              else Inr (sort_key Name
                     (merged_union (successes (map (bind_listing (scope_clean ''/'')) mounts))
                        (reach_elems (scope_clean ''/'') (map fst two_listings_scope)))))"
    by blast
  have mounts: "mounts = two_listings_mounts" using r res by simp
  show ?thesis
    using c tr nogo unfolding mounts dirs m srt by simp
qed

text \<open>
  The claim as it is written fails when the first bind lists a file: the two binds at
  \<open>/\<close> list \<open>d\<close> (directory), \<open>f\<close> (file) and \<open>e\<close> (directory), \<open>g\<close> (file), \<open>d\<close> (directory);
  \<open>Readdir\<close> returns \<open>d\<close>, \<open>e\<close> and the file \<open>f\<close>, the union of the directory entries is
  \<open>d\<close>, \<open>e\<close>.
\<close>

theorem Readdir_lists_files_counterexample:
  "Scope_Readdir two_listings_scope ''/''
     = Some (Inr [vfs_dirInfo ''d'', vfs_dirInfo ''e'', file_rec ''f'']) \<and>
   claimed_dir_union [[vfs_dirInfo ''d'', file_rec ''f''],
                      [vfs_dirInfo ''e'', file_rec ''g'', vfs_dirInfo ''d'']]
     = [vfs_dirInfo ''d'', vfs_dirInfo ''e''] \<and>
   successes (map (bind_listing ''/'') two_listings_mounts)
     = [[vfs_dirInfo ''d'', file_rec ''f''],
        [vfs_dirInfo ''e'', file_rec ''g'', vfs_dirInfo ''d'']]"
  by code_simp

text \<open>The scope of this example is the one that \<open>NewScope\<close> and two calls of \<open>Bind\<close> make:
  the same keys, and binds with the same roots, bases and listings.\<close>

lemma two_listings_scope_by_Bind:
  "(case scope_two_listings of
      Some (Inr s) \<Rightarrow> map fst s = map fst two_listings_scope \<and>
        map (\<lambda>(k, ms). map (\<lambda>m. (mount_root m, mount_base m, fs_Readdir (mount_fs m) ''/'')) ms) s
          = map (\<lambda>(k, ms). map (\<lambda>m. (mount_root m, mount_base m, fs_Readdir (mount_fs m) ''/'')) ms)
              two_listings_scope
    | _ \<Rightarrow> False)"
  by code_simp

section \<open>Listing a directory with a file that is no archive\<close>

text \<open>A file that the zip decoder rejects with \<open>zip.ErrFormat\<close> or \<open>zip.ErrAlgorithm\<close> makes
  \<open>open\<close> of zipfs fail with \<open>vfs.ErrNotSupported\<close>; so does a file that the rar decoder
  rejects with one of its two messages.\<close>

lemma zipfs_open_not_an_archive:
  assumes "opn h = (Inr f, h1)" and "file_Stat f h1 = None"
    and "file_decoded f h1 = Inl Zip_ErrFormat \<or> file_decoded f h1 = Inl Zip_ErrAlgorithm"
  shows "fst (zipfs_open name opn h) = Inl ErrNotSupported"
  using assms by (auto simp: zipfs_open_def zipfs_openReadCloser_def)

lemma rarfs_open_not_an_archive:
  assumes "opn h = (Inr f, h1)" and "file_Stat f h1 = None"
    and "file_decoded f h1 = Inl (Errorf ''rardecode: bad header crc'') \<or>
         file_decoded f h1 = Inl (Errorf ''rardecode: unsupported decoder version'')"
  shows "fst (rarfs_open name opn h) = Inl ErrNotSupported"
  using assms by (auto simp: rarfs_open_def rarfs_openReadCloser_def)

lemma kept_if_unsupported_mono:
  assumes "list_all2 (kept_if_unsupported lower pk scope name ov1) infos infos'"
    and "\<And>x. ov x = None \<Longrightarrow> openFileSystem lower pk scope x = Some (Inl ErrNotSupported) \<Longrightarrow> ov1 x = None"
  shows "list_all2 (kept_if_unsupported lower pk scope name ov) infos infos'"
  using assms(1)
proof (rule list_all2_mono)
  fix i i' assume "kept_if_unsupported lower pk scope name ov1 i i'"
  then show "kept_if_unsupported lower pk scope name ov i i'"
    using assms(2) [of "path_Join name (path_Base (Name i))"]
    by (auto simp: kept_if_unsupported_def split: if_splits)
qed

lemma probing_tolerant:
  assumes "\<forall>info\<in>set infos.
             ov (path_Join name (path_Base (Name info))) = None \<and>
             hasFileSystem (lower (filepath_Ext (path_Join name (path_Base (Name info))))) \<longrightarrow>
             openFileSystem lower pk scope (path_Join name (path_Base (Name info))) = Some (Inl ErrNotSupported) \<or>
             (\<exists>ofs. openFileSystem lower pk scope (path_Join name (path_Base (Name info))) = Some (Inr ofs))"
  shows "\<exists>infos' ov'.
           probing lower pk scope name infos ov = Some (Inr infos', ov') \<and>
           list_all2 (kept_if_unsupported lower pk scope name ov) infos infos' \<and>
           (\<forall>x. ov' x = None \<longrightarrow> ov x = None) \<and>
           (\<forall>x. ov x = None \<longrightarrow> openFileSystem lower pk scope x = Some (Inl ErrNotSupported) \<longrightarrow> ov' x = None)"
  using assms
proof (induction infos arbitrary: ov)
  case Nil
  then show ?case by simp
next
  case (Cons info infos)
  define full where "full = path_Join name (path_Base (Name info))"
  define dir where "dir = autofs_dirInfo (Name info) (Size info) (ModTime info)"
  have step: "probing lower pk scope name (info # infos) ov =
     (if ov full \<noteq> None then probing_cons dir (probing lower pk scope name infos ov)
      else if hasFileSystem (lower (filepath_Ext full)) then
        (case openFileSystem lower pk scope full of
           None \<Rightarrow> None
         | Some (Inl e) \<Rightarrow>
             if e = ErrNotSupported
             then probing_cons info (probing lower pk scope name infos (ov(full := None)))
             else Some (Inl e, ov(full := Some None))
         | Some (Inr ofs) \<Rightarrow>
             probing_cons dir (probing lower pk scope name infos (ov(full := Some (Some ofs)))))
      else probing_cons info (probing lower pk scope name infos ov))"
    unfolding full_def dir_def by (simp add: Let_def)
  have head: "ov full = None \<Longrightarrow> hasFileSystem (lower (filepath_Ext full)) \<Longrightarrow>
      openFileSystem lower pk scope full = Some (Inl ErrNotSupported) \<or>
      (\<exists>ofs. openFileSystem lower pk scope full = Some (Inr ofs))"
    using Cons.prems by (simp add: full_def)
  have rest: "\<exists>infos' ov'. probing lower pk scope name infos ov1 = Some (Inr infos', ov') \<and>
           list_all2 (kept_if_unsupported lower pk scope name ov1) infos infos' \<and>
           (\<forall>x. ov' x = None \<longrightarrow> ov1 x = None) \<and>
           (\<forall>x. ov1 x = None \<longrightarrow> openFileSystem lower pk scope x = Some (Inl ErrNotSupported) \<longrightarrow> ov' x = None)"
    if "\<And>x. ov1 x = None \<Longrightarrow> ov x = None" for ov1
  proof (rule Cons.IH, intro ballI impI)
    fix i assume i: "i \<in> set infos"
      and c: "ov1 (path_Join name (path_Base (Name i))) = None \<and>
              hasFileSystem (lower (filepath_Ext (path_Join name (path_Base (Name i)))))"
    have "ov (path_Join name (path_Base (Name i))) = None" using c that by blast
    then show "openFileSystem lower pk scope (path_Join name (path_Base (Name i))) = Some (Inl ErrNotSupported) \<or>
             (\<exists>ofs. openFileSystem lower pk scope (path_Join name (path_Base (Name i))) = Some (Inr ofs))"
      using Cons.prems i c by simp
  qed
  show ?case
  proof (cases "ov full = None \<and> hasFileSystem (lower (filepath_Ext full)) \<and>
                (\<exists>ofs. openFileSystem lower pk scope full = Some (Inr ofs))")
    case True
    then obtain ofs where o: "ov full = None" "hasFileSystem (lower (filepath_Ext full))"
      "openFileSystem lower pk scope full = Some (Inr ofs)" by blast
    define ov1 where "ov1 = ov(full := Some (Some ofs))"
    have sub: "\<And>x. ov1 x = None \<Longrightarrow> ov x = None"
      by (simp add: ov1_def split: if_splits)
    from rest [OF sub] obtain infos' ov' where
      r: "probing lower pk scope name infos ov1 = Some (Inr infos', ov')"
         "list_all2 (kept_if_unsupported lower pk scope name ov1) infos infos'"
         "\<forall>x. ov' x = None \<longrightarrow> ov1 x = None"
         "\<forall>x. ov1 x = None \<longrightarrow> openFileSystem lower pk scope x = Some (Inl ErrNotSupported) \<longrightarrow> ov' x = None"
      by blast
    have keep: "\<And>x. ov x = None \<Longrightarrow> openFileSystem lower pk scope x = Some (Inl ErrNotSupported) \<Longrightarrow> ov1 x = None"
      using o(3) by (auto simp: ov1_def)
    have 1: "probing lower pk scope name (info # infos) ov = Some (Inr (dir # infos'), ov')"
      using o r(1) by (subst step) (simp add: ov1_def)
    have 2: "list_all2 (kept_if_unsupported lower pk scope name ov) (info # infos) (dir # infos')"
      using kept_if_unsupported_mono [OF r(2) keep] o(3)
      by (auto simp add: kept_if_unsupported_def full_def)
    have 3: "\<forall>x. ov' x = None \<longrightarrow> ov x = None" using r(3) sub by blast
    have 4: "\<forall>x. ov x = None \<longrightarrow> openFileSystem lower pk scope x = Some (Inl ErrNotSupported) \<longrightarrow> ov' x = None"
      using r(4) keep by blast
    show ?thesis using 1 2 3 4 by blast
  next
    case False
    from rest [of ov] obtain infos' ov' where
      r: "probing lower pk scope name infos ov = Some (Inr infos', ov')"
         "list_all2 (kept_if_unsupported lower pk scope name ov) infos infos'"
         "\<forall>x. ov' x = None \<longrightarrow> ov x = None"
         "\<forall>x. ov x = None \<longrightarrow> openFileSystem lower pk scope x = Some (Inl ErrNotSupported) \<longrightarrow> ov' x = None"
      by blast
    have same: "ov full = None \<Longrightarrow> ov(full := None) = ov" by auto
    show ?thesis
    proof (cases "ov full = None")
      case mounted: False
      have 1: "probing lower pk scope name (info # infos) ov = Some (Inr (dir # infos'), ov')"
        using mounted r(1) by (subst step) simp
      have 2: "list_all2 (kept_if_unsupported lower pk scope name ov) (info # infos) (dir # infos')"
        using r(2) mounted by (auto simp add: kept_if_unsupported_def full_def)
      show ?thesis using 1 2 r(3,4) by blast
    next
      case none: True
      have 1: "probing lower pk scope name (info # infos) ov = Some (Inr (info # infos'), ov')"
      proof (cases "hasFileSystem (lower (filepath_Ext full))")
        case False
        then show ?thesis using none r(1) by (subst step) simp
      next
        case True
        with none head False have "openFileSystem lower pk scope full = Some (Inl ErrNotSupported)"
          by blast
        then show ?thesis using none True r(1) same by (subst step) simp
      qed
      have 2: "list_all2 (kept_if_unsupported lower pk scope name ov) (info # infos) (info # infos')"
        using r(2) by (simp add: kept_if_unsupported_def)
      show ?thesis using 1 2 r(3,4) by blast
    qed
  qed
qed

text \<open>
  Claim C8 (amended). Let \<open>Readdir\<close> of autofs reach the scope (no key of the overlay
  lies on the cleaned path of the directory or above it), let the scope list \<open>infos\<close>,
  and let every record of the listing whose path is not a key of the overlay and has an
  archive extension either open as an archive or fail with \<open>vfs.ErrNotSupported\<close>. Then
  \<open>Readdir\<close> succeeds with one record for every record that the scope listed, and
  every record whose path is not a key of the overlay and fails to open with
  \<open>vfs.ErrNotSupported\<close> is returned as the scope listed it, its path still not a key of
  the overlay.
\<close>

theorem autofs_Readdir_keeps_unsupported:
  assumes walk: "overlay_walk ov (autofs_clean name0) ''/'' = None"
    and listing: "Scope_Readdir scope (autofs_clean name0) = Some (Inr infos)"
    and cand: "\<forall>info\<in>set infos.
             ov (probe_path name0 info) = None \<and>
             hasFileSystem (lower (filepath_Ext (probe_path name0 info))) \<longrightarrow>
             openFileSystem lower pk scope (probe_path name0 info) = Some (Inl ErrNotSupported) \<or>
             (\<exists>ofs. openFileSystem lower pk scope (probe_path name0 info) = Some (Inr ofs))"
  shows "\<exists>infos' ov'.
           autofs_Readdir lower pk scope name0 ov = Some (Inr infos', ov') \<and>
           length infos' = length infos \<and>
           (\<forall>k<length infos.
              ov (probe_path name0 (infos ! k)) = None \<and>
              openFileSystem lower pk scope (probe_path name0 (infos ! k)) = Some (Inl ErrNotSupported) \<longrightarrow>
              infos' ! k = infos ! k \<and> ov' (probe_path name0 (infos ! k)) = None)"
proof -
  from probing_tolerant [of infos ov "autofs_clean name0" lower pk scope] cand
  obtain infos' ov' where
    r: "probing lower pk scope (autofs_clean name0) infos ov = Some (Inr infos', ov')"
       "list_all2 (kept_if_unsupported lower pk scope (autofs_clean name0) ov) infos infos'"
       "\<forall>x. ov x = None \<longrightarrow> openFileSystem lower pk scope x = Some (Inl ErrNotSupported) \<longrightarrow> ov' x = None"
    unfolding probe_path_def by blast
  have 1: "autofs_Readdir lower pk scope name0 ov = Some (Inr infos', ov')"
    using walk listing r(1) by (simp add: autofs_Readdir_def Let_def)
  have 2: "length infos' = length infos"
    using r(2) by (simp add: list_all2_lengthD)
  have 3: "\<forall>k<length infos.
              ov (probe_path name0 (infos ! k)) = None \<and>
              openFileSystem lower pk scope (probe_path name0 (infos ! k)) = Some (Inl ErrNotSupported) \<longrightarrow>
              infos' ! k = infos ! k \<and> ov' (probe_path name0 (infos ! k)) = None"
  proof (intro allI impI)
    fix k assume k: "k < length infos"
      and h: "ov (probe_path name0 (infos ! k)) = None \<and>
              openFileSystem lower pk scope (probe_path name0 (infos ! k)) = Some (Inl ErrNotSupported)"
    have "kept_if_unsupported lower pk scope (autofs_clean name0) ov (infos ! k) (infos' ! k)"
      using r(2) k by (rule list_all2_nthD)
    then have "infos' ! k = infos ! k"
      using h by (simp add: kept_if_unsupported_def probe_path_def)
    moreover have "ov' (probe_path name0 (infos ! k)) = None"
      using r(3) h by blast
    ultimately show "infos' ! k = infos ! k \<and> ov' (probe_path name0 (infos ! k)) = None" ..
  qed
  show ?thesis using 1 2 3 by blast
qed

theorem autofs_Readdir_keeps_unsupported_witness:
  "\<exists>infos' ov'.
     autofs_Readdir ToLower_ascii no_archive_packages scope_broken_zip ''/'' (\<lambda>k. None) = Some (Inr infos', ov') \<and>
     length infos' = 2 \<and> infos' ! 0 = file_rec ''broken.ZIP'' \<and> \<not> IsDir (infos' ! 0) \<and>
     ov' ''/broken.ZIP'' = None"
proof -
  have "Option.is_none (overlay_walk (\<lambda>k. None) (autofs_clean ''/'') ''/'')"
    by code_simp
  then have walk: "overlay_walk (\<lambda>k. None) (autofs_clean ''/'') ''/'' = None"
    by (simp add: Option.is_none_def)
  have listing: "Scope_Readdir scope_broken_zip (autofs_clean ''/'')
                   = Some (Inr [file_rec ''broken.ZIP'', file_rec ''readme.txt''])"
    by code_simp
  have p1: "probe_path ''/'' (file_rec ''broken.ZIP'') = ''/broken.ZIP''"
    and p2: "probe_path ''/'' (file_rec ''readme.txt'') = ''/readme.txt''"
    by code_simp+
  have e2: "\<not> hasFileSystem (ToLower_ascii (filepath_Ext ''/readme.txt''))"
    by code_simp
  have st: "Scope_Stat scope_broken_zip ''/broken.ZIP'' = Some (Inr (file_rec ''broken.ZIP''))"
    by code_simp
  have e1: "ToLower_ascii (filepath_Ext (Name (file_rec ''broken.ZIP''))) = ''.zip''"
    and d1: "\<not> IsDir (file_rec ''broken.ZIP'')"
    by code_simp+
  have op: "openFileSystem ToLower_ascii no_archive_packages scope_broken_zip ''/broken.ZIP'' = Some (Inl ErrNotSupported)"
    by (simp add: openFileSystem_def st e1 d1 no_archive_packages_def)
  have cand: "\<forall>info\<in>set [file_rec ''broken.ZIP'', file_rec ''readme.txt''].
             (\<lambda>k. None) (probe_path ''/'' info) = None \<and>
             hasFileSystem (ToLower_ascii (filepath_Ext (probe_path ''/'' info))) \<longrightarrow>
             openFileSystem ToLower_ascii no_archive_packages scope_broken_zip (probe_path ''/'' info) = Some (Inl ErrNotSupported) \<or>
             (\<exists>ofs. openFileSystem ToLower_ascii no_archive_packages scope_broken_zip (probe_path ''/'' info) = Some (Inr ofs))"
    by (simp add: p1 p2 e2 op)
  from autofs_Readdir_keeps_unsupported [OF walk listing cand]
  show ?thesis using p1 op d1 by fastforce
qed

text \<open>
  The claim as it is written fails when another record of the listing fails to open
  with an error of its own: \<open>Readdir\<close> returns that error. Beside \<open>broken.zip\<close>, which
  fails with \<open>vfs.ErrNotSupported\<close>, the file \<open>secret.zip\<close> that cannot be read ends the
  call with the permission error, and the directory \<open>photos.zip\<close> ends it with
  \<open>autofs.ErrDir\<close>.
\<close>

theorem Readdir_fails_beside_unsupported_counterexample:
  "failure (openFileSystem ToLower_ascii unreadable_packages scope_unreadable_zip ''/broken.zip'')
     = Some ErrNotSupported \<and>
   Scope_Readdir scope_unreadable_zip ''/''
     = Some (Inr [file_rec ''broken.zip'', file_rec ''secret.zip'']) \<and>
   call_failure (autofs_Readdir ToLower_ascii unreadable_packages scope_unreadable_zip ''/''
                   empty_overlay)
     = Some ErrPermission \<and>
   failure (openFileSystem ToLower_ascii no_archive_packages scope_zip_candidates ''/broken.zip'')
     = Some ErrNotSupported \<and>
   Scope_Readdir scope_zip_candidates ''/''
     = Some (Inr [file_rec ''broken.zip'', vfs_dirInfo ''photos.zip'']) \<and>
   call_failure (autofs_Readdir ToLower_ascii no_archive_packages scope_zip_candidates ''/''
                   empty_overlay)
     = Some Autofs_ErrDir"
  by code_simp

section \<open>Stat of a file with an archive extension\<close>

lemma overlay_walk_None_key: "overlay_walk ov dir base = None \<Longrightarrow> ov dir = None"
  by (subst (asm) overlay_walk.simps) (auto split: option.splits)

lemma dir_mode_bits:
  "(ModeDir OR perm_0555) AND ModeDir = ModeDir" "(ModeDir OR perm_0555) AND ModePerm = perm_0555"
  "ModeDir \<noteq> 0"
  by (simp_all add: ModeDir_def perm_0555_def ModePerm_def)

text \<open>
  When no key of the overlay lies on the cleaned path or above it, the \<open>Stat\<close> of the
  scope succeeds and the name of the record it returns has the extension \<open>.rar\<close>, \<open>.tar\<close>
  or \<open>.zip\<close> after \<open>strings.ToLower\<close>, then \<open>Stat\<close> and \<open>Lstat\<close> of autofs return a
  directory record with the name, size and modification time of that record and mode
  \<open>ModeDir | 0555\<close>, and leave the overlay as it was.
\<close>

lemma autofs_Stat_without_overlay_key:
  assumes walk: "overlay_walk ov (autofs_clean name) ''/'' = None"
    and st: "Scope_Stat scope (autofs_clean name) = Some (Inr info)"
    and ext: "hasFileSystem (lower (filepath_Ext (Name info)))"
  shows "autofs_Stat lower scope name ov =
           Some (Inr \<lparr>Name = Name info, Size = Size info, Mode = ModeDir OR perm_0555,
                      ModTime = ModTime info, IsDir = True\<rparr>, ov) \<and>
         autofs_Lstat lower scope name ov =
           Some (Inr \<lparr>Name = Name info, Size = Size info, Mode = ModeDir OR perm_0555,
                      ModTime = ModTime info, IsDir = True\<rparr>, ov) \<and>
         (ModeDir OR perm_0555) AND ModeDir = ModeDir \<and>
         (ModeDir OR perm_0555) AND ModePerm = perm_0555"
proof -
  have key: "ov (autofs_clean name) = None"
    using walk by (rule overlay_walk_None_key)
  have s: "autofs_stat lower scope (autofs_clean name) f =
             Some (Inr (autofs_dirInfo (Name info) (Size info) (ModTime info)))" for f
    using st ext by (simp add: autofs_stat_def)
  show ?thesis
    using key walk s
    by (simp add: autofs_Stat_def autofs_Lstat_def Let_def autofs_dirInfo_def dir_mode_bits)
qed

text \<open>
  Claim C9. Two calls break it.
  \<^item> The root directory holds the file \<open>b.tar\<close>, which is no tar archive. \<open>Readdir("/")\<close>
    on a new autofs fails with the error of the tar reader and leaves the key \<open>/b.tar\<close>
    in the overlay with the nil value: the assignment
    \<^verbatim>\<open>fs.overlay[full], err = fs.openFileSystem(full)\<close> stores it, and the key is deleted
    again only for \<open>vfs.ErrNotSupported\<close>. No archive is mounted. From then on \<open>Stat\<close> and
    \<open>Lstat\<close> of \<open>/b.tar\<close> return a directory record with the name \<open>/b.tar\<close>, size 0 and the
    zero time, where the record of the file has the name \<open>b.tar\<close>, size 1024 and a
    time of its own; \<open>Stat\<close> of a path below \<open>/b.tar\<close> calls a method of the nil value.
  \<^item> The root directory holds the symbolic link \<open>x.zip\<close> to a file that does not exist.
    \<open>Lstat\<close> of the scope succeeds; \<open>Lstat\<close> of autofs fails with "not exist", because
    \<open>stat\<close> calls \<open>fs.Scope.Stat\<close> and not the function that \<open>Lstat\<close> passes to it.
\<close>

theorem autofs_Stat_after_failed_listing:
  "call_failure (autofs_Readdir ToLower_ascii no_archive_packages scope_broken_tar ''/'' empty_overlay)
     = Some (Errorf ''archive/tar: invalid tar header'') \<and>
   key_holds_nil overlay_after_listing ''/b.tar'' \<and>
   Scope_Stat scope_broken_tar ''/b.tar''
     = Some (Inr \<lparr>Name = ''b.tar'', Size = 1024, Mode = perm_0444, ModTime = 1700000000,
                     IsDir = False\<rparr>) \<and>
   call_value (autofs_Stat ToLower_ascii scope_broken_tar ''/b.tar'' overlay_after_listing)
     = Some \<lparr>Name = ''/b.tar'', Size = 0, Mode = ModeDir OR perm_0555, ModTime = 0, IsDir = True\<rparr> \<and>
   call_value (autofs_Lstat ToLower_ascii scope_broken_tar ''/b.tar'' overlay_after_listing)
     = Some \<lparr>Name = ''/b.tar'', Size = 0, Mode = ModeDir OR perm_0555, ModTime = 0, IsDir = True\<rparr> \<and>
   call_failure (autofs_Stat ToLower_ascii scope_broken_tar ''/b.tar/x'' overlay_after_listing)
     = Some (Panic ''nil pointer dereference'') \<and>
   Scope_Lstat scope_dangling_link ''/x.zip'' = Some (Inr (file_rec ''x.zip'')) \<and>
   call_failure (autofs_Lstat ToLower_ascii scope_dangling_link ''/x.zip'' empty_overlay)
     = Some ErrNotExist"
  by code_simp

end
